theory Spec2Isabelle
  imports Complex_Main
begin

section \<open>Data model of maindebug.py\<close>

text \<open>
  Numbers. The player dictionary holds Python ints and floats (positions start as the
  integers 200, the walking speed is 3.5, gravity is 0.2). Both are embedded in \<open>real\<close>:
  every int and every float is a real number. Quantities that are integers throughout
  (hit points, timers, clock readings in milliseconds) are \<open>int\<close>.
\<close>

definition WORLD_WIDTH :: int where "WORLD_WIDTH = 4069"
definition WORLD_HEIGHT :: int where "WORLD_HEIGHT = 2048"
definition SKYBOX_HEIGHT :: int where "SKYBOX_HEIGHT = 50"
definition PLAYER_SIZE :: int where "PLAYER_SIZE = 15"
definition PLAYER_SPEED :: real where "PLAYER_SPEED = 7 / 2"
definition DASH_SPEED :: real where "DASH_SPEED = 9"
definition DASH_COOLDOWN :: int where "DASH_COOLDOWN = 500"
definition JUMP_FORCE :: real where "JUMP_FORCE = - 5"
definition MAX_FALL_SPEED :: real where "MAX_FALL_SPEED = 10"

text \<open>The literal \<open>0.2\<close> is the double nearest to one fifth.\<close>

definition GRAVITY :: real where "GRAVITY = 3602879701896397 / 18014398509481984"

subsection \<open>Python arithmetic\<close>

text \<open>
  What is not exact in the program is the arithmetic: \<open>+\<close> and \<open>-\<close> round their result
  to a double as soon as a float is involved. The two operations are a parameter \<open>ar\<close>
  of every function that computes with positions or velocities, and the general results
  below hold for any pair of operations. Comparisons, \<open>min\<close>, \<open>abs\<close>, unary minus and
  the truncation in \<open>pygame.Rect\<close> are exact and are not parameters.
\<close>

record arith =
  py_add :: "real \<Rightarrow> real \<Rightarrow> real"
  py_sub :: "real \<Rightarrow> real \<Rightarrow> real"

text \<open>
  \<open>binary64\<close> is the pair the scenarios are evaluated with: the exact result rounded to
  53 significant bits, to nearest, ties to even. \<open>binade\<close> finds the exponent \<open>e\<close> with
  \<open>2^52 \<le> m / 2^e < 2^53\<close>; its first argument bounds the search and 2200 steps cover the
  whole range of doubles. This is Python's \<open>+\<close> and \<open>-\<close> on ints below \<open>2^53\<close> and on
  floats whose result is in the normal range (no overflow, no subnormal result), which
  holds for every value the scenarios meet.
\<close>

definition round_half_even :: "real \<Rightarrow> int" where
  "round_half_even x =
     (let n = \<lfloor>x\<rfloor>; d = x - of_int n
      in if d < 1 / 2 then n else if 1 / 2 < d then n + 1 else if even n then n else n + 1)"

fun binade :: "nat \<Rightarrow> real \<Rightarrow> int \<Rightarrow> int" where
  "binade 0 m e = e"
| "binade (Suc k) m e =
     (if m < 4503599627370496 then binade k (m * 2) (e - 1)
      else if 9007199254740992 \<le> m then binade k (m / 2) (e + 1)
      else e)"

definition two_to :: "int \<Rightarrow> real" where
  "two_to e = (if 0 \<le> e then 2 ^ nat e else 1 / 2 ^ nat (- e))"

definition round64 :: "real \<Rightarrow> real" where
  "round64 x =
     (if x = 0 then 0
      else (let e = binade 2200 \<bar>x\<bar> 0
            in of_int (round_half_even (x / two_to e)) * two_to e))"

definition binary64 :: arith where
  "binary64 = \<lparr>py_add = (\<lambda>x y. round64 (x + y)), py_sub = (\<lambda>x y. round64 (x - y))\<rparr>"

subsection \<open>pygame.Rect\<close>

text \<open>
  \<open>pygame.Rect\<close> is the library's rectangle: it stores four integers and truncates
  float arguments towards zero. \<open>right\<close> and \<open>bottom\<close> are \<open>x + w\<close> and \<open>y + h\<close>.
  \<open>colliderect\<close> is true when the two rectangles overlap with positive area; rectangles
  that only touch along an edge do not collide. Every rectangle the program builds has a
  positive size (15 for the player, 10 for a coin, 50 for a brick).
\<close>

record rect =
  rect_x :: int
  rect_y :: int
  rect_w :: int
  rect_h :: int

definition py_int :: "real \<Rightarrow> int" where
  "py_int r = (if 0 \<le> r then \<lfloor>r\<rfloor> else \<lceil>r\<rceil>)"

definition Rect :: "real \<Rightarrow> real \<Rightarrow> real \<Rightarrow> real \<Rightarrow> rect" where
  "Rect x y w h = \<lparr>rect_x = py_int x, rect_y = py_int y, rect_w = py_int w, rect_h = py_int h\<rparr>"

definition rect_left :: "rect \<Rightarrow> int" where "rect_left r = rect_x r"
definition rect_top :: "rect \<Rightarrow> int" where "rect_top r = rect_y r"
definition rect_right :: "rect \<Rightarrow> int" where "rect_right r = rect_x r + rect_w r"
definition rect_bottom :: "rect \<Rightarrow> int" where "rect_bottom r = rect_y r + rect_h r"

definition colliderect :: "rect \<Rightarrow> rect \<Rightarrow> bool" where
  "colliderect a b =
     (rect_left a < rect_right b \<and> rect_top a < rect_bottom b \<and>
      rect_right a > rect_left b \<and> rect_bottom a > rect_top b)"

subsection \<open>Entities\<close>

record Platform =
  platform_rect :: rect

record Coin =
  coin_rect :: rect
  collected :: bool

record DamageBrick =
  brick_rect :: rect
  damage :: int

text \<open>The player dictionary built in \<open>main\<close>; \<open>pos\<close> is the pair \<open>pos_x\<close>, \<open>pos_y\<close>.\<close>

record player =
  pos_x :: real
  pos_y :: real
  y_velocity :: real
  x_velocity :: real
  is_grounded :: bool
  last_dash :: int
  speed :: real
  dash_speed :: real
  dash_cooldown :: int
  is_dashing :: bool
  dash_timer :: int
  facing_right :: bool
  dash_key_pressed :: bool
  hp :: int
  is_invincible :: bool
  last_damage_time :: int

text \<open>The keys the program reads from \<open>pygame.key.get_pressed()\<close>.\<close>

record keys =
  K_LSHIFT :: bool
  K_RIGHT :: bool
  K_d :: bool
  K_LEFT :: bool
  K_a :: bool
  K_SPACE :: bool

definition player_rect :: "player \<Rightarrow> rect" where
  "player_rect p = Rect (pos_x p) (pos_y p) (of_int PLAYER_SIZE) (of_int PLAYER_SIZE)"

section \<open>Per-frame operations\<close>

subsection \<open>apply_physics\<close>

definition apply_physics :: "arith \<Rightarrow> player \<Rightarrow> player" where
  "apply_physics ar p =
     (let p1 =
        (if \<not> is_dashing p then
           (if \<not> is_grounded p
            then p\<lparr>y_velocity := min (py_add ar (y_velocity p) GRAVITY) MAX_FALL_SPEED\<rparr>
            else p)
         else
           (let q = p\<lparr>dash_timer := dash_timer p - 1\<rparr>
            in if dash_timer q \<le> 0 then q\<lparr>is_dashing := False, x_velocity := 0\<rparr> else q))
      in p1\<lparr>pos_y := py_add ar (pos_y p1) (y_velocity p1)\<rparr>)"

subsection \<open>constrain_player_to_world\<close>

definition constrain_player_to_world :: "player \<Rightarrow> player" where
  "constrain_player_to_world p =
     (let p1 =
        (if pos_x p < 0 then p\<lparr>pos_x := 0, x_velocity := 0\<rparr>
         else if pos_x p > of_int (WORLD_WIDTH - PLAYER_SIZE)
         then p\<lparr>pos_x := of_int (WORLD_WIDTH - PLAYER_SIZE), x_velocity := 0\<rparr>
         else p)
      in if pos_y p1 < of_int SKYBOX_HEIGHT
         then p1\<lparr>pos_y := of_int SKYBOX_HEIGHT, y_velocity := 0\<rparr>
         else if pos_y p1 > of_int (WORLD_HEIGHT - PLAYER_SIZE)
         then p1\<lparr>pos_y := of_int (WORLD_HEIGHT - PLAYER_SIZE), y_velocity := 0,
                  is_grounded := True\<rparr>
         else p1)"

subsection \<open>move_player\<close>

text \<open>
  \<open>pygame.time.get_ticks()\<close> is read twice: \<open>t_check\<close> is the reading compared with the
  cooldown, \<open>t_stamp\<close> the one stored in \<open>last_dash\<close>. The parameter \<open>delta_time\<close> of the
  source is never used and is left out. The dictionary of \<open>main\<close> always has the key
  \<open>dash_key_pressed\<close>, so the default of \<open>player.get\<close> is never taken.
\<close>

definition move_player :: "arith \<Rightarrow> player \<Rightarrow> keys \<Rightarrow> int \<Rightarrow> int \<Rightarrow> player" where
  "move_player ar p ks t_check t_stamp =
     (if is_dashing p then p\<lparr>pos_x := py_add ar (pos_x p) (x_velocity p)\<rparr>
      else
        (let spd = speed p;
             p1 =
               (if K_LSHIFT ks then
                  (let q =
                     (if \<not> dash_key_pressed p then
                        (if t_check - last_dash p \<ge> dash_cooldown p then
                           (if K_RIGHT ks \<or> K_d ks then
                              p\<lparr>is_dashing := True, dash_timer := 15,
                                x_velocity := dash_speed p, facing_right := True,
                                last_dash := t_stamp\<rparr>
                            else if K_LEFT ks \<or> K_a ks then
                              p\<lparr>is_dashing := True, dash_timer := 15,
                                x_velocity := - dash_speed p, facing_right := False,
                                last_dash := t_stamp\<rparr>
                            else p)
                         else p)
                      else p)
                   in q\<lparr>dash_key_pressed := True\<rparr>)
                else p\<lparr>dash_key_pressed := False\<rparr>);
             p2 =
               (if K_LEFT ks \<or> K_a ks
                then p1\<lparr>pos_x := py_sub ar (pos_x p1) spd, facing_right := False\<rparr> else p1);
             p3 =
               (if K_RIGHT ks \<or> K_d ks
                then p2\<lparr>pos_x := py_add ar (pos_x p2) spd, facing_right := True\<rparr> else p2)
         in if K_SPACE ks \<and> is_grounded p3 then p3\<lparr>y_velocity := JUMP_FORCE\<rparr> else p3))"

subsection \<open>handle_collisions\<close>

text \<open>
  \<open>player_rect\<close> and \<open>previous_bottom\<close> are computed once, before the loop, and are
  not refreshed when a branch moves the player; \<open>y_velocity\<close> is read from the
  dictionary each time. The guards are named after the comments of the source.
\<close>

definition landing :: "rect \<Rightarrow> real \<Rightarrow> Platform \<Rightarrow> player \<Rightarrow> bool" where
  "landing r previous_bottom pl p =
     (previous_bottom \<le> of_int (rect_top (platform_rect pl)) \<and>
      rect_bottom r \<ge> rect_top (platform_rect pl) \<and>
      rect_right r > rect_left (platform_rect pl) \<and>
      rect_left r < rect_right (platform_rect pl) \<and>
      y_velocity p > 0)"

definition head_bump :: "arith \<Rightarrow> rect \<Rightarrow> Platform \<Rightarrow> player \<Rightarrow> bool" where
  "head_bump ar r pl p =
     (rect_top r < rect_bottom (platform_rect pl) \<and>
      of_int (rect_top r) \<ge> py_sub ar (of_int (rect_bottom (platform_rect pl))) \<bar>y_velocity p\<bar> \<and>
      rect_right r > rect_left (platform_rect pl) \<and>
      rect_left r < rect_right (platform_rect pl) \<and>
      y_velocity p < 0)"

definition side_left :: "rect \<Rightarrow> Platform \<Rightarrow> bool" where
  "side_left r pl =
     (rect_right r > rect_left (platform_rect pl) \<and>
      rect_left r < rect_left (platform_rect pl) \<and>
      rect_bottom r > rect_top (platform_rect pl) + 5 \<and>
      rect_top r < rect_bottom (platform_rect pl) - 5)"

definition side_right :: "rect \<Rightarrow> Platform \<Rightarrow> bool" where
  "side_right r pl =
     (rect_left r < rect_right (platform_rect pl) \<and>
      rect_right r > rect_right (platform_rect pl) \<and>
      rect_bottom r > rect_top (platform_rect pl) + 5 \<and>
      rect_top r < rect_bottom (platform_rect pl) - 5)"

definition snap_below :: "Platform \<Rightarrow> player \<Rightarrow> player" where
  "snap_below pl p = p\<lparr>pos_y := of_int (rect_bottom (platform_rect pl)), y_velocity := 0\<rparr>"

text \<open>The first \<open>if\<close>/\<open>elif\<close> of the loop body once the landing test has failed.\<close>

definition vertical_branch :: "arith \<Rightarrow> rect \<Rightarrow> Platform \<Rightarrow> player \<Rightarrow> player" where
  "vertical_branch ar r pl p = (if head_bump ar r pl p then snap_below pl p else p)"

text \<open>The second \<open>if\<close>/\<open>elif\<close>/\<open>elif\<close> of the loop body, with the repeated head-bump test last.\<close>

definition side_branch :: "arith \<Rightarrow> rect \<Rightarrow> Platform \<Rightarrow> player \<Rightarrow> player" where
  "side_branch ar r pl p =
     (if side_left r pl
      then p\<lparr>pos_x := of_int (rect_left (platform_rect pl) - PLAYER_SIZE), x_velocity := 0\<rparr>
      else if side_right r pl
      then p\<lparr>pos_x := of_int (rect_right (platform_rect pl)), x_velocity := 0\<rparr>
      else if head_bump ar r pl p then snap_below pl p
      else p)"

fun collision_loop :: "arith \<Rightarrow> rect \<Rightarrow> real \<Rightarrow> Platform list \<Rightarrow> player \<Rightarrow> player" where
  "collision_loop ar r previous_bottom [] p = p"
| "collision_loop ar r previous_bottom (pl # pls) p =
     (if landing r previous_bottom pl p
      then p\<lparr>pos_y := of_int (rect_top (platform_rect pl) - PLAYER_SIZE), y_velocity := 0,
             is_grounded := True\<rparr>
      else collision_loop ar r previous_bottom pls (side_branch ar r pl (vertical_branch ar r pl p)))"

definition handle_collisions :: "arith \<Rightarrow> player \<Rightarrow> Platform list \<Rightarrow> player" where
  "handle_collisions ar p platforms =
     (let p0 = p\<lparr>is_grounded := False\<rparr>;
          r = player_rect p0;
          previous_bottom = py_sub ar (of_int (rect_bottom r)) (y_velocity p0)
      in collision_loop ar r previous_bottom platforms p0)"

text \<open>
  The loop body without the repeated head-bump test, for comparison with the source: the
  design notes of the specification ask for exactly one head-bump rule.
\<close>

definition side_branch_single :: "arith \<Rightarrow> rect \<Rightarrow> Platform \<Rightarrow> player \<Rightarrow> player" where
  "side_branch_single ar r pl p =
     (if side_left r pl
      then p\<lparr>pos_x := of_int (rect_left (platform_rect pl) - PLAYER_SIZE), x_velocity := 0\<rparr>
      else if side_right r pl
      then p\<lparr>pos_x := of_int (rect_right (platform_rect pl)), x_velocity := 0\<rparr>
      else p)"

fun collision_loop_single :: "arith \<Rightarrow> rect \<Rightarrow> real \<Rightarrow> Platform list \<Rightarrow> player \<Rightarrow> player" where
  "collision_loop_single ar r previous_bottom [] p = p"
| "collision_loop_single ar r previous_bottom (pl # pls) p =
     (if landing r previous_bottom pl p
      then p\<lparr>pos_y := of_int (rect_top (platform_rect pl) - PLAYER_SIZE), y_velocity := 0,
             is_grounded := True\<rparr>
      else collision_loop_single ar r previous_bottom pls
             (side_branch_single ar r pl (vertical_branch ar r pl p)))"

definition handle_collisions_single :: "arith \<Rightarrow> player \<Rightarrow> Platform list \<Rightarrow> player" where
  "handle_collisions_single ar p platforms =
     (let p0 = p\<lparr>is_grounded := False\<rparr>;
          r = player_rect p0;
          previous_bottom = py_sub ar (of_int (rect_bottom r)) (y_velocity p0)
      in collision_loop_single ar r previous_bottom platforms p0)"

text \<open>
  The landing test in the words of the specification, on the player as it enters
  \<open>handle_collisions\<close>: the bottom edge of the previous frame is at or above the top of the
  platform, the current bottom edge is at or below it, and the two overlap horizontally.
\<close>

definition swept_landing :: "arith \<Rightarrow> player \<Rightarrow> Platform \<Rightarrow> bool" where
  "swept_landing ar p pl =
     (py_sub ar (of_int (rect_bottom (player_rect p))) (y_velocity p) \<le>
        of_int (rect_top (platform_rect pl)) \<and>
      rect_bottom (player_rect p) \<ge> rect_top (platform_rect pl) \<and>
      rect_right (player_rect p) > rect_left (platform_rect pl) \<and>
      rect_left (player_rect p) < rect_right (platform_rect pl))"

subsection \<open>handle_damage and handle_damage_bricks\<close>

text \<open>
  The module defines \<open>handle_damage\<close> twice; the second definition replaces the first
  and is the one modelled. It reads the clock on every call: \<open>current_time\<close> is that
  reading. In \<open>handle_damage_bricks\<close>, \<open>ticks k\<close> is the reading taken by the call for the
  brick at index \<open>k\<close>.
\<close>

definition handle_damage :: "player \<Rightarrow> int \<Rightarrow> int \<Rightarrow> player" where
  "handle_damage p amount current_time =
     (if \<not> is_invincible p then
        (let q = p\<lparr>hp := hp p - amount\<rparr>;
             q1 = (if hp q < 0 then q\<lparr>hp := 0\<rparr> else q)
         in q1\<lparr>is_invincible := True, last_damage_time := current_time\<rparr>)
      else p)"

fun damage_loop :: "rect \<Rightarrow> (nat \<Rightarrow> int) \<Rightarrow> nat \<Rightarrow> DamageBrick list \<Rightarrow> player \<Rightarrow> player" where
  "damage_loop r ticks k [] p = p"
| "damage_loop r ticks k (brick # bricks) p =
     damage_loop r ticks (Suc k) bricks
       (if colliderect r (brick_rect brick) then handle_damage p (damage brick) (ticks k) else p)"

definition handle_damage_bricks :: "player \<Rightarrow> DamageBrick list \<Rightarrow> (nat \<Rightarrow> int) \<Rightarrow> player" where
  "handle_damage_bricks p damage_bricks ticks =
     damage_loop (player_rect p) ticks 0 damage_bricks p"

subsection \<open>handle_coin_collection\<close>

text \<open>The function marks coins in place and returns the score; the model returns both.\<close>

fun coin_loop :: "rect \<Rightarrow> Coin list \<Rightarrow> int \<Rightarrow> Coin list \<times> int" where
  "coin_loop r [] sc = ([], sc)"
| "coin_loop r (coin # cs) sc =
     (if \<not> collected coin \<and> colliderect r (coin_rect coin)
      then (let (cs', sc') = coin_loop r cs (sc + 1) in (coin\<lparr>collected := True\<rparr> # cs', sc'))
      else (let (cs', sc') = coin_loop r cs sc in (coin # cs', sc')))"

definition handle_coin_collection :: "player \<Rightarrow> Coin list \<Rightarrow> int \<Rightarrow> Coin list \<times> int" where
  "handle_coin_collection p cs sc = coin_loop (player_rect p) cs sc"

section \<open>The game loop of main\<close>

definition new_Platform :: "real \<Rightarrow> real \<Rightarrow> real \<Rightarrow> real \<Rightarrow> Platform" where
  "new_Platform x y w h = \<lparr>platform_rect = Rect x y w h\<rparr>"

definition new_Coin :: "real \<Rightarrow> real \<Rightarrow> Coin" where
  "new_Coin x y = \<lparr>coin_rect = Rect x y 10 10, collected = False\<rparr>"

definition new_DamageBrick :: "real \<Rightarrow> real \<Rightarrow> DamageBrick" where
  "new_DamageBrick x y = \<lparr>brick_rect = Rect x y 50 50, damage = 25\<rparr>"

definition initial_player :: player where
  "initial_player =
     \<lparr>pos_x = 200, pos_y = 200, y_velocity = 0, x_velocity = 0, is_grounded = False,
      last_dash = 0, speed = PLAYER_SPEED, dash_speed = DASH_SPEED,
      dash_cooldown = DASH_COOLDOWN, is_dashing = False, dash_timer = 0,
      facing_right = True, dash_key_pressed = False, hp = 100, is_invincible = False,
      last_damage_time = 0\<rparr>"

definition main_coins :: "Coin list" where
  "main_coins = [new_Coin 300 400, new_Coin 500 500, new_Coin 600 300, new_Coin 700 200]"

definition main_damage_bricks :: "DamageBrick list" where
  "main_damage_bricks = [new_DamageBrick 200 150]"

text \<open>
  The local variables of \<open>main\<close> that the loop changes. \<open>saved_scores\<close> stands for the
  rows written by \<open>save_score\<close>. \<open>game_over_time\<close> starts as \<open>None\<close>.
\<close>

record game =
  player :: player
  coins :: "Coin list"
  score :: int
  game_over :: bool
  game_over_time :: "int option"
  score_saved :: bool
  running :: bool
  saved_scores :: "int list"

definition initial_game :: game where
  "initial_game =
     \<lparr>player = initial_player, coins = main_coins, score = 0, game_over = False,
      game_over_time = None, score_saved = False, running = True, saved_scores = []\<rparr>"

text \<open>
  What one iteration of the loop receives from outside: whether a QUIT event is queued,
  the key state, and the reading of \<open>pygame.time.get_ticks()\<close> at each place the
  iteration may call it (the death screen test, the cooldown test and the stamp of
  \<open>move_player\<close>, the moment of death, each call of \<open>handle_damage\<close>, and the
  invincibility test).
\<close>

record frame_input =
  quit :: bool
  keys :: keys
  ticks_death_screen :: int
  ticks_dash_check :: int
  ticks_dash_stamp :: int
  ticks_death :: int
  ticks_damage :: "nat \<Rightarrow> int"
  ticks_invincible :: int

datatype error = TypeError

text \<open>The four operations on the player that every simulated frame starts with.\<close>

definition motion :: "arith \<Rightarrow> Platform list \<Rightarrow> frame_input \<Rightarrow> player \<Rightarrow> player" where
  "motion ar platforms inp p =
     constrain_player_to_world
       (handle_collisions ar
          (apply_physics ar (move_player ar p (keys inp) (ticks_dash_check inp) (ticks_dash_stamp inp)))
          platforms)"

definition reset_invincibility :: "int \<Rightarrow> player \<Rightarrow> player" where
  "reset_invincibility now p =
     (if is_invincible p then
        (if now - last_damage_time p > 1000 then p\<lparr>is_invincible := False\<rparr> else p)
      else p)"

text \<open>The loop body from "Handle input and movement" on.\<close>

definition simulate :: "arith \<Rightarrow> Platform list \<Rightarrow> DamageBrick list \<Rightarrow> frame_input \<Rightarrow> game \<Rightarrow> game" where
  "simulate ar platforms damage_bricks inp g =
     (let p1 = motion ar platforms inp (player g) in
      if hp p1 \<le> 0
      then g\<lparr>player := p1, game_over := True, game_over_time := Some (ticks_death inp)\<rparr>
      else
        (let p2 = handle_damage_bricks p1 damage_bricks (ticks_damage inp);
             p3 = reset_invincibility (ticks_invincible inp) p2;
             (cs, sc) = handle_coin_collection p3 (coins g) (score g)
         in g\<lparr>player := p3, coins := cs, score := sc\<rparr>))"

text \<open>
  One iteration. In the game-over branch the death screen ends the iteration
  (\<open>continue\<close>); once more than 5000 ms have passed the branch only clears \<open>running\<close>
  and the iteration goes on into the simulation. Subtracting \<open>game_over_time\<close> while it
  is still \<open>None\<close> raises \<open>TypeError\<close>.
\<close>

definition frame :: "arith \<Rightarrow> Platform list \<Rightarrow> DamageBrick list \<Rightarrow> frame_input \<Rightarrow> game \<Rightarrow> error + game" where
  "frame ar platforms damage_bricks inp g0 =
     (let g = (if quit inp then g0\<lparr>running := False\<rparr> else g0) in
      if game_over g then
        (let g1 = (if \<not> score_saved g
                   then g\<lparr>saved_scores := saved_scores g @ [score g], score_saved := True\<rparr>
                   else g)
         in case game_over_time g1 of
              None \<Rightarrow> Inl TypeError
            | Some t \<Rightarrow>
                if ticks_death_screen inp - t > 5000
                then Inr (simulate ar platforms damage_bricks inp (g1\<lparr>running := False\<rparr>))
                else Inr g1)
      else Inr (simulate ar platforms damage_bricks inp g))"

text \<open>The \<open>while running\<close> loop over the inputs of successive iterations.\<close>

fun main_loop :: "arith \<Rightarrow> Platform list \<Rightarrow> DamageBrick list \<Rightarrow> frame_input list \<Rightarrow> game \<Rightarrow> error + game" where
  "main_loop ar platforms damage_bricks [] g = Inr g"
| "main_loop ar platforms damage_bricks (inp # inps) g =
     (if running g then
        (case frame ar platforms damage_bricks inp g of
           Inl e \<Rightarrow> Inl e
         | Inr g' \<Rightarrow> main_loop ar platforms damage_bricks inps g')
      else Inr g)"

text \<open>The two hazard steps of the loop body, brick contact and the invincibility timeout.\<close>

definition hazards :: "DamageBrick list \<Rightarrow> frame_input \<Rightarrow> player \<Rightarrow> player" where
  "hazards bricks inp p =
     reset_invincibility (ticks_invincible inp) (handle_damage_bricks p bricks (ticks_damage inp))"

section \<open>Sessions\<close>

text \<open>
  The states the loop can be in: \<open>main\<close> starts from \<open>initial_game\<close> with its own
  bricks and coins; the platforms come from the level file and the inputs from outside,
  so both are arbitrary, as is the arithmetic \<open>ar\<close>.
\<close>

inductive reachable :: "arith \<Rightarrow> Platform list \<Rightarrow> game \<Rightarrow> bool"
  for ar :: arith and platforms :: "Platform list" where
  start: "reachable ar platforms initial_game"
| step: "reachable ar platforms g \<Longrightarrow> running g \<Longrightarrow>
         frame ar platforms main_damage_bricks inp g = Inr g' \<Longrightarrow> reachable ar platforms g'"

text \<open>
  The player states that the per-frame operations can produce, in any order and with any
  arguments. Every player of a reachable game is one of them (\<open>reachable_player_of_game\<close>
  below).
\<close>

inductive reachable_player :: "arith \<Rightarrow> player \<Rightarrow> bool" for ar :: arith where
  initial: "reachable_player ar initial_player"
| move: "reachable_player ar p \<Longrightarrow> reachable_player ar (move_player ar p ks t_check t_stamp)"
| physics: "reachable_player ar p \<Longrightarrow> reachable_player ar (apply_physics ar p)"
| collisions: "reachable_player ar p \<Longrightarrow> reachable_player ar (handle_collisions ar p platforms)"
| constrain: "reachable_player ar p \<Longrightarrow> reachable_player ar (constrain_player_to_world p)"
| bricks: "reachable_player ar p \<Longrightarrow> reachable_player ar (handle_damage_bricks p damage_bricks ticks)"
| invincibility: "reachable_player ar p \<Longrightarrow> reachable_player ar (reset_invincibility now p)"

text \<open>
  An iteration that shows the death screen ends before \<open>pygame.key.get_pressed()\<close> is
  called. \<open>session ar platforms prev g\<close> is \<open>reachable\<close> together with the key state \<open>prev\<close>
  read by the latest iteration that did call it, \<open>None\<close> before the first one.
\<close>

definition death_screen :: "frame_input \<Rightarrow> game \<Rightarrow> bool" where
  "death_screen inp g =
     (game_over g \<and>
      (case game_over_time g of None \<Rightarrow> False | Some t \<Rightarrow> \<not> ticks_death_screen inp - t > 5000))"

inductive session :: "arith \<Rightarrow> Platform list \<Rightarrow> keys option \<Rightarrow> game \<Rightarrow> bool"
  for ar :: arith and platforms :: "Platform list" where
  start: "session ar platforms None initial_game"
| screen: "session ar platforms prev g \<Longrightarrow> running g \<Longrightarrow> death_screen inp g \<Longrightarrow>
           frame ar platforms main_damage_bricks inp g = Inr g' \<Longrightarrow> session ar platforms prev g'"
| update: "session ar platforms prev g \<Longrightarrow> running g \<Longrightarrow> \<not> death_screen inp g \<Longrightarrow>
           frame ar platforms main_damage_bricks inp g = Inr g' \<Longrightarrow>
           session ar platforms (Some (keys inp)) g'"


text \<open>The number of coins marked as collected, and the test of the coin loop.\<close>

definition collected_count :: "Coin list \<Rightarrow> int" where
  "collected_count cs = int (length (filter collected cs))"

definition picked_up :: "rect \<Rightarrow> Coin \<Rightarrow> bool" where
  "picked_up r coin = (\<not> collected coin \<and> colliderect r (coin_rect coin))"

section \<open>Scenarios\<close>

text \<open>Concrete inputs on which the results below are evaluated.\<close>

definition no_keys :: keys where
  "no_keys = \<lparr>K_LSHIFT = False, K_RIGHT = False, K_d = False, K_LEFT = False, K_a = False,
     K_SPACE = False\<rparr>"

text \<open>An input whose clock readings are all \<open>t\<close>.\<close>

definition at_ticks :: "keys \<Rightarrow> int \<Rightarrow> frame_input" where
  "at_ticks ks t =
     \<lparr>quit = False, keys = ks, ticks_death_screen = t, ticks_dash_check = t,
      ticks_dash_stamp = t, ticks_death = t, ticks_damage = (\<lambda>k. t), ticks_invincible = t\<rparr>"

definition dash_right :: keys where
  "dash_right = no_keys\<lparr>K_LSHIFT := True, K_RIGHT := True\<rparr>"

definition hold_right :: keys where
  "hold_right = no_keys\<lparr>K_RIGHT := True\<rparr>"

text \<open>
  A session in which rounding decides a landing: one platform, eight iterations without
  keys and two with the right key held. In the tenth iteration the player enters
  \<open>handle_collisions\<close> as \<open>falling_player\<close>, at (207, 211) with \<open>y_velocity\<close> the double
  \<open>1.9999999999999998\<close>; its bottom edge is 226 and the rounded difference
  \<open>226 - y_velocity\<close> is 224, the top of the platform. \<open>edge_ninth\<close> is the state after
  nine iterations, at (203.5, 209) with \<open>y_velocity\<close> the double \<open>1.7999999999999998\<close>.
  \<open>three_platforms\<close> puts a platform without horizontal overlap before that one and a
  second landing candidate after it.
\<close>

definition edge_level :: "Platform list" where
  "edge_level = [new_Platform 219 224 100 20]"

definition edge_inputs :: "frame_input list" where
  "edge_inputs =
     [at_ticks no_keys 16, at_ticks no_keys 33, at_ticks no_keys 50, at_ticks no_keys 66,
      at_ticks no_keys 83, at_ticks no_keys 100, at_ticks no_keys 116, at_ticks no_keys 133,
      at_ticks hold_right 150, at_ticks hold_right 166]"

definition edge_landed :: game where
  "edge_landed =
     initial_game\<lparr>player := initial_player\<lparr>pos_x := 207, pos_y := 209, is_grounded := True\<rparr>\<rparr>"

definition edge_ninth :: game where
  "edge_ninth =
     initial_game\<lparr>player := initial_player\<lparr>pos_x := 407 / 2, pos_y := 209,
       y_velocity := 2026619832316723 / 1125899906842624\<rparr>\<rparr>"

definition falling_player :: player where
  "falling_player =
     initial_player\<lparr>pos_x := 207, pos_y := 211,
       y_velocity := 9007199254740991 / 4503599627370496\<rparr>"

definition three_platforms :: "Platform list" where
  "three_platforms =
     [new_Platform 400 224 100 20, new_Platform 219 224 100 20, new_Platform 219 225 100 20]"

text \<open>
  A player rising at the double \<open>-3.999999999999999\<close>, the velocity of the fifth
  iteration after a jump.
\<close>

definition rising_player :: player where
  "rising_player = initial_player\<lparr>y_velocity := - (4503599627370495 / 1125899906842624)\<rparr>"

text \<open>A level with one platform just right of the start position.\<close>

definition wall_level :: "Platform list" where
  "wall_level = [new_Platform 210 190 50 50]"

text \<open>
  The state after the first iteration of a session without platforms and keys; the
  position is the double \<open>200.2\<close>.
\<close>

definition after_first_frame :: game where
  "after_first_frame =
     initial_game\<lparr>player := initial_player\<lparr>pos_y := 3521955646092083 / 17592186044416,
       y_velocity := GRAVITY\<rparr>\<rparr>"

text \<open>
  The player just above the first coin, and the states one and two iterations later, at
  the doubles \<open>395.2\<close> and \<open>395.59999999999997\<close>.
\<close>

definition near_coin :: game where
  "near_coin = initial_game\<lparr>player := initial_player\<lparr>pos_x := 300, pos_y := 395\<rparr>\<rparr>"

definition coin_taken :: game where
  "coin_taken =
     near_coin\<lparr>player := initial_player\<lparr>pos_x := 300, pos_y := 6952431924753203 / 17592186044416,
         y_velocity := GRAVITY\<rparr>,
       coins := [(new_Coin 300 400)\<lparr>collected := True\<rparr>, new_Coin 500 500, new_Coin 600 300,
                 new_Coin 700 200],
       score := 1\<rparr>"

definition coin_kept :: game where
  "coin_kept =
     coin_taken\<lparr>player := initial_player\<lparr>pos_x := 300, pos_y := 6959468799170969 / 17592186044416,
       y_velocity := 2 * GRAVITY\<rparr>\<rparr>"

text \<open>
  The player standing on a platform inside the brick of \<open>main\<close>, and the state after the
  first iteration there.
\<close>

definition contact_level :: "Platform list" where
  "contact_level = [new_Platform 150 190 200 20]"

definition contact_start :: game where
  "contact_start = initial_game\<lparr>player := initial_player\<lparr>pos_y := 175\<rparr>\<rparr>"

definition contact_hit :: game where
  "contact_hit =
     contact_start\<lparr>player := initial_player\<lparr>pos_y := 175, is_grounded := True, hp := 75,
       is_invincible := True, last_damage_time := 16\<rparr>\<rparr>"

text \<open>
  The inputs of \<open>n\<close> iterations at 60 per second without keys: iteration \<open>i\<close> reads
  the clock at \<open>1000 i / 60\<close> ms, rounded down.
\<close>

definition sixty_fps :: "nat \<Rightarrow> frame_input list" where
  "sixty_fps n = map (\<lambda>i. at_ticks no_keys ((50 * int i) div 3)) [1..<Suc n]"

text \<open>
  The brick overlaps the player's rectangle in every iteration of a run: the rectangle
  is the one \<open>handle_damage_bricks\<close> tests, the player after \<open>motion\<close>.
\<close>

fun contact_throughout :: "arith \<Rightarrow> Platform list \<Rightarrow> DamageBrick \<Rightarrow> frame_input list \<Rightarrow> game \<Rightarrow> bool" where
  "contact_throughout ar platforms brick [] g = True"
| "contact_throughout ar platforms brick (inp # inps) g =
     (if running g then
        colliderect (player_rect (motion ar platforms inp (player g))) (brick_rect brick) \<and>
        (case frame ar platforms [brick] inp g of
           Inl e \<Rightarrow> False
         | Inr g' \<Rightarrow> contact_throughout ar platforms brick inps g')
      else True)"

text \<open>
  The states of the contact scenario: the player at (200, 175) on the platform, with the
  given \<open>is_grounded\<close>, \<open>hp\<close>, \<open>is_invincible\<close> and \<open>last_damage_time\<close>.
\<close>

definition standing :: "bool \<Rightarrow> int \<Rightarrow> bool \<Rightarrow> int \<Rightarrow> game" where
  "standing gr h iv ldt =
     contact_start\<lparr>player := initial_player\<lparr>pos_y := 175, is_grounded := gr, hp := h,
       is_invincible := iv, last_damage_time := ldt\<rparr>\<rparr>"

text \<open>The contact scenario after 60 and after 180 iterations.\<close>

definition one_second_later :: game where
  "one_second_later =
     contact_start\<lparr>player := initial_player\<lparr>pos_y := 175, hp := 75, is_invincible := True,
       last_damage_time := 16\<rparr>\<rparr>"

definition three_seconds_later :: game where
  "three_seconds_later =
     contact_start\<lparr>player := initial_player\<lparr>pos_y := 175, hp := 25, is_invincible := True,
       last_damage_time := 2083\<rparr>\<rparr>"

section \<open>Results\<close>

text \<open>The exponent search on a numeral bound, for evaluation.\<close>

lemma binade_numeral:
  "binade (numeral k) m e =
     (if m < 4503599627370496 then binade (pred_numeral k) (m * 2) (e - 1)
      else if 9007199254740992 \<le> m then binade (pred_numeral k) (m / 2) (e + 1)
      else e)"
  by (simp add: numeral_eq_Suc)

text \<open>The definitions that evaluate a scenario.\<close>

lemmas round64_eval = binary64_def round64_def binade_numeral two_to_def round_half_even_def

lemmas eval_defs = round64_eval motion_def move_player_def apply_physics_def handle_collisions_def
  constrain_player_to_world_def at_ticks_def dash_right_def no_keys_def wall_level_def
  initial_player_def new_Platform_def Rect_def py_int_def player_rect_def
  landing_def head_bump_def side_left_def side_right_def side_branch_def vertical_branch_def
  snap_below_def rect_left_def rect_right_def rect_top_def rect_bottom_def
  WORLD_WIDTH_def WORLD_HEIGHT_def SKYBOX_HEIGHT_def PLAYER_SIZE_def PLAYER_SPEED_def
  DASH_SPEED_def DASH_COOLDOWN_def JUMP_FORCE_def GRAVITY_def MAX_FALL_SPEED_def Let_def

lemmas frame_defs = frame_def simulate_def handle_damage_bricks_def handle_damage_def
  reset_invincibility_def handle_coin_collection_def colliderect_def main_damage_bricks_def
  new_DamageBrick_def main_coins_def new_Coin_def initial_game_def contact_level_def contact_start_def contact_hit_def
  near_coin_def coin_taken_def coin_kept_def after_first_frame_def

subsection \<open>Physics integrator\<close>

text \<open>
  C3. For every player state and for any addition \<open>py_add ar\<close>, \<open>apply_physics\<close> does
  exactly this: while dashing it decrements \<open>dash_timer\<close> and, when the countdown has run
  out (the new value is \<open>\<le> 0\<close>, the test of the source; a timer counted down from 15 gets
  there at exactly 0), clears \<open>is_dashing\<close> and zeroes \<open>x_velocity\<close>, leaving \<open>y_velocity\<close>
  alone; otherwise, if not grounded, it adds \<open>GRAVITY\<close> (the double 0.2) to \<open>y_velocity\<close>
  with the program's addition and caps the sum at 10; in every case it then adds the
  resulting \<open>y_velocity\<close> to \<open>pos_y\<close>, again with the program's addition. The record
  equation says that no other field changes.
\<close>

theorem apply_physics_spec:
  "apply_physics ar p =
     (if is_dashing p then
        (if dash_timer p - 1 \<le> 0
         then p\<lparr>dash_timer := dash_timer p - 1, is_dashing := False, x_velocity := 0,
                pos_y := py_add ar (pos_y p) (y_velocity p)\<rparr>
         else p\<lparr>dash_timer := dash_timer p - 1, pos_y := py_add ar (pos_y p) (y_velocity p)\<rparr>)
      else if \<not> is_grounded p then
        p\<lparr>y_velocity := min (py_add ar (y_velocity p) GRAVITY) 10,
          pos_y := py_add ar (pos_y p) (min (py_add ar (y_velocity p) GRAVITY) 10)\<rparr>
      else p\<lparr>pos_y := py_add ar (pos_y p) (y_velocity p)\<rparr>)"
  by (simp add: apply_physics_def MAX_FALL_SPEED_def Let_def)

text \<open>
  With \<open>binary64\<close> the sums are the doubles of the program: the third step of a fall
  takes \<open>y_velocity\<close> from 0.4 to \<open>0.6000000000000001\<close> and \<open>pos_y\<close> from 200 to
  \<open>200.6\<close>.
\<close>

theorem apply_physics_spec_witness:
  "apply_physics binary64 (initial_player\<lparr>y_velocity := 2 * GRAVITY\<rparr>) =
     initial_player\<lparr>y_velocity := 1351079888211149 / 2251799813685248,
       pos_y := 7057985041019699 / 35184372088832\<rparr>"
proof -
  have g: "\<not> is_dashing (initial_player\<lparr>y_velocity := 2 * GRAVITY\<rparr>)"
    "\<not> is_grounded (initial_player\<lparr>y_velocity := 2 * GRAVITY\<rparr>)"
    by (simp_all add: initial_player_def)
  have v: "py_add binary64 (2 * GRAVITY) GRAVITY = 1351079888211149 / 2251799813685248"
    by (simp add: binary64_def round64_def binade_numeral two_to_def round_half_even_def
        GRAVITY_def)
  have y: "py_add binary64 200 (1351079888211149 / 2251799813685248) =
           7057985041019699 / 35184372088832"
    by (simp add: binary64_def round64_def binade_numeral two_to_def round_half_even_def)
  have p: "pos_y initial_player = 200" by (simp add: initial_player_def)
  show ?thesis
    using apply_physics_spec [of binary64 "initial_player\<lparr>y_velocity := 2 * GRAVITY\<rparr>"] g
    by (simp add: v y p)
qed

subsection \<open>Boundary constraint\<close>

text \<open>
  C7. For every player state \<open>constrain_player_to_world\<close> clamps \<open>pos_x\<close> into
  \<open>[0, 4069 - 15]\<close> and \<open>pos_y\<close> into \<open>[50, 2048 - 15]\<close>, zeroes \<open>x_velocity\<close> exactly when
  \<open>pos_x\<close> was outside its interval and \<open>y_velocity\<close> exactly when \<open>pos_y\<close> was, sets
  \<open>is_grounded\<close> exactly when \<open>pos_y\<close> was beyond the floor bound, and changes no other
  field.
\<close>

theorem constrain_player_to_world_spec:
  "constrain_player_to_world p =
     p\<lparr>pos_x := max 0 (min (pos_x p) (4069 - 15)),
       pos_y := max 50 (min (pos_y p) (2048 - 15)),
       x_velocity := (if pos_x p < 0 \<or> pos_x p > 4069 - 15 then 0 else x_velocity p),
       y_velocity := (if pos_y p < 50 \<or> pos_y p > 2048 - 15 then 0 else y_velocity p),
       is_grounded := (pos_y p > 2048 - 15 \<or> is_grounded p)\<rparr>"
  by (simp add: constrain_player_to_world_def WORLD_WIDTH_def WORLD_HEIGHT_def
      SKYBOX_HEIGHT_def PLAYER_SIZE_def Let_def min_def max_def)

subsection \<open>The repeated head-bump branch\<close>

lemma head_bump_after_vertical: "\<not> head_bump ar r pl (vertical_branch ar r pl p)"
proof (cases "head_bump ar r pl p")
  case True
  then have "y_velocity (vertical_branch ar r pl p) = 0"
    by (simp add: vertical_branch_def snap_below_def)
  then show ?thesis by (simp add: head_bump_def)
next
  case False
  then show ?thesis by (simp add: vertical_branch_def)
qed

lemma side_branch_single_eq:
  "side_branch ar r pl (vertical_branch ar r pl p) = side_branch_single ar r pl (vertical_branch ar r pl p)"
  by (simp add: side_branch_def side_branch_single_def head_bump_after_vertical)

lemma collision_loop_single_eq:
  "collision_loop_single ar r b pls p = collision_loop ar r b pls p"
  by (induction pls arbitrary: p) (simp_all add: side_branch_single_eq)

text \<open>
  C6. The second head-bump test of the loop body is evaluated on the player as the first
  \<open>if\<close>/\<open>elif\<close> left it, and there it is false, for every player, rectangle and
  platform: either the first test fired and zeroed \<open>y_velocity\<close>, or the same test has
  just failed on the same values. Hence \<open>handle_collisions\<close> without that branch is the
  same function.
\<close>

theorem duplicate_head_bump_dead:
  "\<not> head_bump ar r pl (vertical_branch ar r pl p) \<and>
   handle_collisions_single ar p platforms = handle_collisions ar p platforms"
  by (simp add: head_bump_after_vertical handle_collisions_single_def handle_collisions_def
      collision_loop_single_eq)

subsection \<open>Landing\<close>

lemma vertical_branch_falling: "0 < y_velocity q \<Longrightarrow> vertical_branch ar r pl q = q"
  by (simp add: vertical_branch_def head_bump_def)

lemma side_branch_falling:
  "0 < y_velocity q \<Longrightarrow>
   y_velocity (side_branch ar r pl q) = y_velocity q \<and> pos_y (side_branch ar r pl q) = pos_y q \<and>
   is_grounded (side_branch ar r pl q) = is_grounded q"
  by (simp add: side_branch_def head_bump_def)

lemma collision_loop_no_landing:
  "0 < y_velocity q \<Longrightarrow> find (\<lambda>pl. landing r b pl q) pls = None \<Longrightarrow>
   y_velocity (collision_loop ar r b pls q) = y_velocity q \<and>
   pos_y (collision_loop ar r b pls q) = pos_y q \<and>
   is_grounded (collision_loop ar r b pls q) = is_grounded q"
proof (induction pls arbitrary: q)
  case Nil
  then show ?case by simp
next
  case (Cons pl pls)
  let ?q = "side_branch ar r pl (vertical_branch ar r pl q)"
  from Cons.prems have nl: "\<not> landing r b pl q" and rest: "find (\<lambda>pl. landing r b pl q) pls = None"
    by (auto split: if_splits)
  have q: "y_velocity ?q = y_velocity q" "pos_y ?q = pos_y q" "is_grounded ?q = is_grounded q"
    using Cons.prems(1) by (simp_all add: vertical_branch_falling side_branch_falling)
  have same: "(\<lambda>pl. landing r b pl ?q) = (\<lambda>pl. landing r b pl q)"
    by (simp add: landing_def q)
  have "y_velocity (collision_loop ar r b pls ?q) = y_velocity ?q \<and>
        pos_y (collision_loop ar r b pls ?q) = pos_y ?q \<and>
        is_grounded (collision_loop ar r b pls ?q) = is_grounded ?q"
    using Cons.IH [of ?q] Cons.prems(1) rest by (simp add: same q)
  then show ?case using nl by (simp add: q)
qed

lemma landing_after_sides:
  "0 < y_velocity q \<Longrightarrow>
   landing r b x (side_branch ar r pl (vertical_branch ar r pl q)) = landing r b x q"
  by (simp add: landing_def vertical_branch_falling side_branch_falling)

lemma collision_loop_landing_fields:
  "0 < y_velocity q \<Longrightarrow> find (\<lambda>pl. landing r b pl q) pls = Some hit \<Longrightarrow>
   pos_y (collision_loop ar r b pls q) = of_int (rect_top (platform_rect hit) - PLAYER_SIZE) \<and>
   y_velocity (collision_loop ar r b pls q) = 0 \<and>
   is_grounded (collision_loop ar r b pls q)"
proof (induction pls arbitrary: q)
  case Nil
  then show ?case by simp
next
  case (Cons pl pls)
  show ?case
  proof (cases "landing r b pl q")
    case True
    with Cons.prems have "hit = pl" by simp
    with True show ?thesis by simp
  next
    case False
    let ?q = "side_branch ar r pl (vertical_branch ar r pl q)"
    have q: "0 < y_velocity ?q"
      using Cons.prems(1) by (simp add: vertical_branch_falling side_branch_falling)
    from Cons.prems False have "find (\<lambda>pl. landing r b pl ?q) pls = Some hit"
      by (simp add: landing_after_sides)
    from Cons.IH [OF q this] False show ?thesis by simp
  qed
qed

lemma collision_loop_landing_prefix:
  "0 < y_velocity q \<Longrightarrow> find (\<lambda>pl. landing r b pl q) pls = Some hit \<Longrightarrow>
   collision_loop ar r b pls q =
     collision_loop ar r b (takeWhile (\<lambda>pl. \<not> landing r b pl q) pls @ [hit]) q"
proof (induction pls arbitrary: q)
  case Nil
  then show ?case by simp
next
  case (Cons pl pls)
  show ?case
  proof (cases "landing r b pl q")
    case True
    with Cons.prems have "hit = pl" by simp
    with True show ?thesis by simp
  next
    case False
    let ?q = "side_branch ar r pl (vertical_branch ar r pl q)"
    have q: "0 < y_velocity ?q"
      using Cons.prems(1) by (simp add: vertical_branch_falling side_branch_falling)
    from Cons.prems False have "find (\<lambda>pl. landing r b pl ?q) pls = Some hit"
      by (simp add: landing_after_sides)
    from Cons.IH [OF q this]
    have "collision_loop ar r b pls ?q =
          collision_loop ar r b (takeWhile (\<lambda>pl. \<not> landing r b pl q) pls @ [hit]) ?q"
      using Cons.prems(1) by (simp add: landing_after_sides)
    with False show ?thesis by simp
  qed
qed

lemma landing_entry:
  "landing (player_rect p) (py_sub ar (of_int (rect_bottom (player_rect p))) (y_velocity p)) pl
     (p\<lparr>is_grounded := False\<rparr>) = (swept_landing ar p pl \<and> 0 < y_velocity p)"
  by (auto simp add: landing_def swept_landing_def)

lemma player_rect_grounded: "player_rect (p\<lparr>is_grounded := b\<rparr>) = player_rect p"
  by (simp add: player_rect_def)

text \<open>
  C2. For every player with \<open>y_velocity > 0\<close>, every platform list and any subtraction
  \<open>py_sub ar\<close>: if no platform passes the swept test (previous bottom \<open>\<le>\<close> top, current
  bottom \<open>\<ge>\<close> top, horizontal overlap; the previous bottom is the program's difference
  of the current bottom and \<open>y_velocity\<close>), \<open>handle_collisions\<close> leaves the player not
  grounded with \<open>y_velocity\<close> and \<open>pos_y\<close> untouched; otherwise, for the first platform in
  list order that passes it, \<open>pos_y\<close> is that platform's top minus 15, \<open>y_velocity\<close> is 0,
  \<open>is_grounded\<close> is set, and the platforms after it have no effect: the result is that of
  the list cut after it.
\<close>

theorem landing_first_match:
  assumes "0 < y_velocity p"
  shows "case find (swept_landing ar p) platforms of
           None \<Rightarrow>
             \<not> is_grounded (handle_collisions ar p platforms) \<and>
             y_velocity (handle_collisions ar p platforms) = y_velocity p \<and>
             pos_y (handle_collisions ar p platforms) = pos_y p
         | Some pl \<Rightarrow>
             pos_y (handle_collisions ar p platforms) = of_int (rect_top (platform_rect pl)) - 15 \<and>
             y_velocity (handle_collisions ar p platforms) = 0 \<and>
             is_grounded (handle_collisions ar p platforms) \<and>
             handle_collisions ar p platforms =
               handle_collisions ar p (takeWhile (\<lambda>q. \<not> swept_landing ar p q) platforms @ [pl])"
proof -
  let ?p0 = "p\<lparr>is_grounded := False\<rparr>"
  let ?r = "player_rect p"
  let ?b = "py_sub ar (of_int (rect_bottom ?r)) (y_velocity p)"
  have same: "(\<lambda>pl. landing ?r ?b pl ?p0) = swept_landing ar p"
    using assms by (simp add: landing_entry)
  have hc: "handle_collisions ar p pls = collision_loop ar ?r ?b pls ?p0" for pls
    by (simp add: handle_collisions_def Let_def player_rect_grounded)
  have same': "(\<lambda>pl. \<not> landing ?r ?b pl ?p0) = (\<lambda>q. \<not> swept_landing ar p q)"
    using assms by (simp add: landing_entry)
  show ?thesis
  proof (cases "find (swept_landing ar p) platforms")
    case None
    then show ?thesis
      using collision_loop_no_landing [of ?p0 ?r ?b platforms ar] assms
      by (simp add: same hc)
  next
    case (Some pl)
    have f: "find (\<lambda>pl. landing ?r ?b pl ?p0) platforms = Some pl"
      using Some by (simp add: same)
    have y: "0 < y_velocity ?p0" using assms by simp
    have "pos_y (handle_collisions ar p platforms) = of_int (rect_top (platform_rect pl)) - 15"
         "y_velocity (handle_collisions ar p platforms) = 0"
         "is_grounded (handle_collisions ar p platforms)"
      using collision_loop_landing_fields [OF y f] by (simp_all add: hc PLAYER_SIZE_def)
    moreover have "handle_collisions ar p platforms =
        handle_collisions ar p (takeWhile (\<lambda>q. \<not> swept_landing ar p q) platforms @ [pl])"
      using collision_loop_landing_prefix [OF y f] by (simp add: hc same')
    ultimately show ?thesis using Some by simp
  qed
qed

text \<open>
  An instance is the landing that rounding decides: the session \<open>edge_inputs\<close> ends on
  the platform, and in its tenth iteration the player enters \<open>handle_collisions\<close> as
  \<open>falling_player\<close>.
\<close>

lemma edge_session:
  "main_loop binary64 edge_level main_damage_bricks edge_inputs initial_game = Inr edge_landed"
  by (simp add: edge_level_def edge_inputs_def edge_landed_def hold_right_def frame_defs eval_defs)

lemma edge_nine:
  "main_loop binary64 edge_level main_damage_bricks (take 9 edge_inputs) initial_game =
     Inr edge_ninth"
  by (simp add: edge_level_def edge_inputs_def edge_ninth_def hold_right_def frame_defs eval_defs)

lemma edge_entry:
  "apply_physics binary64 (move_player binary64 (player edge_ninth) hold_right 166 166) =
     falling_player"
  by (simp add: edge_ninth_def falling_player_def hold_right_def initial_game_def eval_defs)

lemma edge_find:
  "find (swept_landing binary64 falling_player) three_platforms =
     Some (new_Platform 219 224 100 20)"
  by (simp add: swept_landing_def falling_player_def three_platforms_def eval_defs)

theorem landing_first_match_witness:
  "0 < y_velocity falling_player \<and>
   py_sub binary64 226 (y_velocity falling_player) = 224 \<and>
   find (swept_landing binary64 falling_player) three_platforms =
     Some (new_Platform 219 224 100 20) \<and>
   pos_y (handle_collisions binary64 falling_player three_platforms) = 209 \<and>
   y_velocity (handle_collisions binary64 falling_player three_platforms) = 0 \<and>
   is_grounded (handle_collisions binary64 falling_player three_platforms) \<and>
   main_loop binary64 edge_level main_damage_bricks edge_inputs initial_game = Inr edge_landed"
proof -
  have v: "0 < y_velocity falling_player"
    by (simp add: falling_player_def initial_player_def)
  have r: "py_sub binary64 226 (y_velocity falling_player) = 224"
    by (simp add: falling_player_def round64_eval)
  let ?X = "handle_collisions binary64 falling_player three_platforms"
  from landing_first_match [OF v, of binary64 three_platforms]
  have t: "pos_y ?X = of_int (rect_top (platform_rect (new_Platform 219 224 100 20))) - 15 \<and>
           y_velocity ?X = 0 \<and> is_grounded ?X \<and>
           ?X = handle_collisions binary64 falling_player
                  (takeWhile (\<lambda>q. \<not> swept_landing binary64 falling_player q) three_platforms @
                   [new_Platform 219 224 100 20])"
    unfolding edge_find option.case .
  have a: "pos_y ?X = 209"
    using conjunct1 [OF t] by (simp add: new_Platform_def Rect_def py_int_def rect_top_def)
  have b: "y_velocity ?X = 0" using conjunct1 [OF conjunct2 [OF t]] .
  have c: "is_grounded ?X" using conjunct1 [OF conjunct2 [OF conjunct2 [OF t]]] .
  show ?thesis using v r edge_find a b c edge_session by simp
qed

text \<open>
  The head-bump guard rounds in the same way: with the bottom of a platform at 204 and
  the top of the player at 200, the exact difference \<open>204 - |y_velocity|\<close> is above 200
  and the rounded one is 200, so the guard holds.
\<close>

lemma head_bump_rounding:
  "head_bump binary64 (player_rect rising_player) (new_Platform 190 184 50 20) rising_player \<and>
   \<not> 204 - \<bar>y_velocity rising_player\<bar> \<le> 200"
  by (simp add: rising_player_def eval_defs)

subsection \<open>Damage\<close>

lemma handle_damage_eq:
  "handle_damage p amount t =
     (if is_invincible p then p
      else p\<lparr>hp := max 0 (hp p - amount), is_invincible := True, last_damage_time := t\<rparr>)"
  by (simp add: handle_damage_def Let_def max_def)

lemma damage_loop_invincible:
  "is_invincible p \<Longrightarrow> damage_loop r ticks k bricks p = p"
  by (induction bricks arbitrary: k) (simp_all add: handle_damage_def)

text \<open>
  C4. For every player, amount and clock reading: \<open>handle_damage\<close> on an invincible
  player returns it unchanged; otherwise \<open>hp\<close> becomes \<open>hp - amount\<close> floored at 0,
  \<open>is_invincible\<close> is set and the reading is stored in \<open>last_damage_time\<close>, nothing else
  changing. Contact with a brick is that call with the brick's \<open>damage\<close>, and a pass over
  any list of bricks leaves an invincible player unchanged.
\<close>

theorem handle_damage_spec:
  "handle_damage p amount t =
     (if is_invincible p then p
      else p\<lparr>hp := max 0 (hp p - amount), is_invincible := True, last_damage_time := t\<rparr>) \<and>
   handle_damage_bricks p [brick] ticks =
     (if colliderect (player_rect p) (brick_rect brick)
      then handle_damage p (damage brick) (ticks 0) else p) \<and>
   (is_invincible p \<longrightarrow> handle_damage_bricks p bricks ticks = p)"
  by (simp add: handle_damage_eq handle_damage_bricks_def damage_loop_invincible)

theorem handle_damage_spec_witness:
  "is_invincible (initial_player\<lparr>is_invincible := True\<rparr>) \<and>
   handle_damage_bricks (initial_player\<lparr>is_invincible := True\<rparr>) main_damage_bricks (\<lambda>k. 7) =
     initial_player\<lparr>is_invincible := True\<rparr> \<and>
   hp (handle_damage initial_player 25 7) = 75 \<and>
   hp (handle_damage (initial_player\<lparr>hp := 10\<rparr>) 25 7) = 0"
  using handle_damage_spec [of "initial_player\<lparr>is_invincible := True\<rparr>" 25 7
      "new_DamageBrick 200 150" "\<lambda>k. 7" main_damage_bricks]
    handle_damage_spec [of initial_player 25 7 "new_DamageBrick 200 150" "\<lambda>k. 7" "[]"]
    handle_damage_spec [of "initial_player\<lparr>hp := 10\<rparr>" 25 7 "new_DamageBrick 200 150" "\<lambda>k. 7" "[]"]
  by (simp add: initial_player_def)

subsection \<open>Fields that an operation leaves alone\<close>

lemma move_player_keeps:
  "hp (move_player ar p ks t1 t2) = hp p"
  "is_invincible (move_player ar p ks t1 t2) = is_invincible p"
  "last_damage_time (move_player ar p ks t1 t2) = last_damage_time p"
  "dash_speed (move_player ar p ks t1 t2) = dash_speed p"
  "dash_cooldown (move_player ar p ks t1 t2) = dash_cooldown p"
  by (simp_all add: move_player_def Let_def)

lemma apply_physics_keeps:
  "hp (apply_physics ar p) = hp p"
  "is_invincible (apply_physics ar p) = is_invincible p"
  "last_damage_time (apply_physics ar p) = last_damage_time p"
  "dash_speed (apply_physics ar p) = dash_speed p"
  "dash_cooldown (apply_physics ar p) = dash_cooldown p"
  "dash_key_pressed (apply_physics ar p) = dash_key_pressed p"
  "last_dash (apply_physics ar p) = last_dash p"
  by (simp_all add: apply_physics_def Let_def)

lemma side_branch_keeps:
  "hp (side_branch ar r pl p) = hp p"
  "is_invincible (side_branch ar r pl p) = is_invincible p"
  "last_damage_time (side_branch ar r pl p) = last_damage_time p"
  "dash_speed (side_branch ar r pl p) = dash_speed p"
  "dash_cooldown (side_branch ar r pl p) = dash_cooldown p"
  "dash_key_pressed (side_branch ar r pl p) = dash_key_pressed p"
  "last_dash (side_branch ar r pl p) = last_dash p"
  "is_dashing (side_branch ar r pl p) = is_dashing p"
  "dash_timer (side_branch ar r pl p) = dash_timer p"
  by (simp_all add: side_branch_def snap_below_def)

lemma vertical_branch_keeps:
  "hp (vertical_branch ar r pl p) = hp p"
  "is_invincible (vertical_branch ar r pl p) = is_invincible p"
  "last_damage_time (vertical_branch ar r pl p) = last_damage_time p"
  "dash_speed (vertical_branch ar r pl p) = dash_speed p"
  "dash_cooldown (vertical_branch ar r pl p) = dash_cooldown p"
  "dash_key_pressed (vertical_branch ar r pl p) = dash_key_pressed p"
  "last_dash (vertical_branch ar r pl p) = last_dash p"
  "is_dashing (vertical_branch ar r pl p) = is_dashing p"
  "dash_timer (vertical_branch ar r pl p) = dash_timer p"
  "x_velocity (vertical_branch ar r pl p) = x_velocity p"
  by (simp_all add: vertical_branch_def snap_below_def)

lemma collision_loop_keeps:
  "hp (collision_loop ar r b pls p) = hp p \<and>
   is_invincible (collision_loop ar r b pls p) = is_invincible p \<and>
   last_damage_time (collision_loop ar r b pls p) = last_damage_time p \<and>
   dash_speed (collision_loop ar r b pls p) = dash_speed p \<and>
   dash_cooldown (collision_loop ar r b pls p) = dash_cooldown p \<and>
   dash_key_pressed (collision_loop ar r b pls p) = dash_key_pressed p \<and>
   last_dash (collision_loop ar r b pls p) = last_dash p \<and>
   is_dashing (collision_loop ar r b pls p) = is_dashing p \<and>
   dash_timer (collision_loop ar r b pls p) = dash_timer p"
  by (induction pls arbitrary: p) (simp_all add: side_branch_keeps vertical_branch_keeps)

lemma handle_collisions_keeps:
  "hp (handle_collisions ar p pls) = hp p"
  "is_invincible (handle_collisions ar p pls) = is_invincible p"
  "last_damage_time (handle_collisions ar p pls) = last_damage_time p"
  "dash_speed (handle_collisions ar p pls) = dash_speed p"
  "dash_cooldown (handle_collisions ar p pls) = dash_cooldown p"
  "dash_key_pressed (handle_collisions ar p pls) = dash_key_pressed p"
  "last_dash (handle_collisions ar p pls) = last_dash p"
  "is_dashing (handle_collisions ar p pls) = is_dashing p"
  "dash_timer (handle_collisions ar p pls) = dash_timer p"
  by (simp_all add: handle_collisions_def Let_def collision_loop_keeps)

lemma constrain_keeps:
  "hp (constrain_player_to_world p) = hp p"
  "is_invincible (constrain_player_to_world p) = is_invincible p"
  "last_damage_time (constrain_player_to_world p) = last_damage_time p"
  "dash_speed (constrain_player_to_world p) = dash_speed p"
  "dash_cooldown (constrain_player_to_world p) = dash_cooldown p"
  "dash_key_pressed (constrain_player_to_world p) = dash_key_pressed p"
  "last_dash (constrain_player_to_world p) = last_dash p"
  "is_dashing (constrain_player_to_world p) = is_dashing p"
  "dash_timer (constrain_player_to_world p) = dash_timer p"
  by (simp_all add: constrain_player_to_world_def Let_def)

lemma motion_keeps:
  "hp (motion ar pls inp p) = hp p"
  "is_invincible (motion ar pls inp p) = is_invincible p"
  "last_damage_time (motion ar pls inp p) = last_damage_time p"
  "dash_speed (motion ar pls inp p) = dash_speed p"
  "dash_cooldown (motion ar pls inp p) = dash_cooldown p"
  by (simp_all add: motion_def constrain_keeps handle_collisions_keeps apply_physics_keeps
      move_player_keeps)

lemma damage_loop_changes:
  "\<exists>h i t. damage_loop r ticks k bricks p = p\<lparr>hp := h, is_invincible := i, last_damage_time := t\<rparr>"
proof (induction bricks arbitrary: k p)
  case Nil
  have "p = p\<lparr>hp := hp p, is_invincible := is_invincible p, last_damage_time := last_damage_time p\<rparr>"
    by simp
  then show ?case by (metis damage_loop.simps(1))
next
  case (Cons b bs)
  let ?q = "if colliderect r (brick_rect b) then handle_damage p (damage b) (ticks k) else p"
  obtain h i t where "damage_loop r ticks (Suc k) bs ?q = ?q\<lparr>hp := h, is_invincible := i, last_damage_time := t\<rparr>"
    using Cons.IH [of "Suc k" ?q] by blast
  moreover have "?q\<lparr>hp := h, is_invincible := i, last_damage_time := t\<rparr> =
                 p\<lparr>hp := h, is_invincible := i, last_damage_time := t\<rparr>"
    by (simp add: handle_damage_def Let_def)
  ultimately show ?case by (metis damage_loop.simps(2))
qed

lemma handle_damage_bricks_dash:
  "x_velocity (handle_damage_bricks p bricks ticks) = x_velocity p"
  "dash_speed (handle_damage_bricks p bricks ticks) = dash_speed p"
  "dash_cooldown (handle_damage_bricks p bricks ticks) = dash_cooldown p"
  "is_dashing (handle_damage_bricks p bricks ticks) = is_dashing p"
  "dash_key_pressed (handle_damage_bricks p bricks ticks) = dash_key_pressed p"
  using damage_loop_changes [of "player_rect p" ticks 0 bricks p]
  by (auto simp add: handle_damage_bricks_def)

lemma reset_invincibility_dash:
  "x_velocity (reset_invincibility now p) = x_velocity p"
  "dash_speed (reset_invincibility now p) = dash_speed p"
  "dash_cooldown (reset_invincibility now p) = dash_cooldown p"
  "is_dashing (reset_invincibility now p) = is_dashing p"
  "dash_key_pressed (reset_invincibility now p) = dash_key_pressed p"
  by (simp_all add: reset_invincibility_def)

lemma reset_invincibility_hp: "hp (reset_invincibility now p) = hp p"
  by (simp add: reset_invincibility_def)


subsection \<open>One iteration\<close>

lemma simulate_alt:
  "simulate ar pls bricks inp g =
     (if hp (motion ar pls inp (player g)) \<le> 0
      then g\<lparr>player := motion ar pls inp (player g), game_over := True,
             game_over_time := Some (ticks_death inp)\<rparr>
      else g\<lparr>player := hazards bricks inp (motion ar pls inp (player g)),
             coins := fst (coin_loop (player_rect (hazards bricks inp (motion ar pls inp (player g))))
                            (coins g) (score g)),
             score := snd (coin_loop (player_rect (hazards bricks inp (motion ar pls inp (player g))))
                            (coins g) (score g))\<rparr>)"
  by (simp add: simulate_def Let_def handle_coin_collection_def hazards_def case_prod_beta)

lemma simulate_player:
  "player (simulate ar pls bricks inp g) =
     (if hp (motion ar pls inp (player g)) \<le> 0 then motion ar pls inp (player g)
      else hazards bricks inp (motion ar pls inp (player g)))"
  by (simp add: simulate_alt)

lemma frame_cases:
  assumes "frame ar pls bricks inp g = Inr g'"
  obtains g0 where "player g0 = player g" "coins g0 = coins g" "score g0 = score g"
    "game_over g0 = game_over g" "game_over_time g0 = game_over_time g"
    "(game_over g \<and> g' = g0) \<or> g' = simulate ar pls bricks inp g0"
proof -
  let ?g = "if quit inp then g\<lparr>running := False\<rparr> else g"
  let ?g1 = "if \<not> score_saved ?g
             then ?g\<lparr>saved_scores := saved_scores ?g @ [score ?g], score_saved := True\<rparr> else ?g"
  show thesis
  proof (cases "game_over g")
    case False
    with assms have "g' = simulate ar pls bricks inp ?g"
      by (simp add: frame_def Let_def split: if_splits)
    then show thesis using that [of ?g] by simp
  next
    case True
    show thesis
    proof (cases "game_over_time g")
      case None
      with True assms show thesis by (simp add: frame_def Let_def split: if_splits)
    next
      case (Some t)
      show thesis
      proof (cases "ticks_death_screen inp - t > 5000")
        case over: True
        with True Some assms have "g' = simulate ar pls bricks inp (?g1\<lparr>running := False\<rparr>)"
          by (simp add: frame_def Let_def split: if_splits)
        then show thesis using that [of "?g1\<lparr>running := False\<rparr>"] by simp
      next
        case screen: False
        with True Some assms have "g' = ?g1"
          by (simp add: frame_def Let_def split: if_splits)
        then show thesis using that [of ?g1] True by simp
      qed
    qed
  qed
qed

lemma frame_player:
  assumes "frame ar pls bricks inp g = Inr g'"
  shows "player g' =
     (if death_screen inp g then player g
      else if hp (motion ar pls inp (player g)) \<le> 0 then motion ar pls inp (player g)
      else hazards bricks inp (motion ar pls inp (player g)))"
  using assms
  by (auto simp add: frame_def Let_def death_screen_def simulate_player
      split: if_splits option.splits)

lemma wall_motion:
  "motion binary64 wall_level (at_ticks dash_right 500) initial_player =
     initial_player\<lparr>pos_x := 195, x_velocity := 0, is_dashing := True, dash_timer := 14,
       last_dash := 500, dash_key_pressed := True\<rparr>"
  by (simp add: eval_defs)

lemma wall_frame:
  "frame binary64 wall_level main_damage_bricks (at_ticks dash_right 500) initial_game =
     Inr (initial_game\<lparr>player := motion binary64 wall_level (at_ticks dash_right 500) initial_player\<rparr>)"
  by (simp add: frame_defs eval_defs)


lemma near_coin_frame:
  "main_loop binary64 [] main_damage_bricks [at_ticks no_keys 16] near_coin = Inr coin_taken"
  by (simp add: frame_defs eval_defs)

lemma coin_taken_frame:
  "main_loop binary64 [] main_damage_bricks [at_ticks no_keys 33] coin_taken = Inr coin_kept"
  by (simp add: frame_defs eval_defs)

lemma contact_frame:
  "main_loop binary64 contact_level main_damage_bricks [at_ticks no_keys 16] contact_start = Inr contact_hit"
  by (simp add: frame_defs eval_defs)

subsection \<open>Velocity while dashing\<close>

lemma x_velocity_move:
  "x_velocity (move_player ar p ks t1 t2) = x_velocity p \<or>
   x_velocity (move_player ar p ks t1 t2) = dash_speed p \<or>
   x_velocity (move_player ar p ks t1 t2) = - dash_speed p"
  by (simp add: move_player_def Let_def)

lemma x_velocity_physics:
  "x_velocity (apply_physics ar p) = x_velocity p \<or> x_velocity (apply_physics ar p) = 0"
  by (simp add: apply_physics_def Let_def)

lemma x_velocity_side:
  "x_velocity (side_branch ar r pl p) = x_velocity p \<or> x_velocity (side_branch ar r pl p) = 0"
  by (simp add: side_branch_def snap_below_def)

lemma x_velocity_loop:
  "x_velocity (collision_loop ar r b pls p) = x_velocity p \<or> x_velocity (collision_loop ar r b pls p) = 0"
proof (induction pls arbitrary: p)
  case Nil
  show ?case by simp
next
  case (Cons pl pls)
  let ?q = "side_branch ar r pl (vertical_branch ar r pl p)"
  have "x_velocity ?q = x_velocity p \<or> x_velocity ?q = 0"
    using x_velocity_side [of ar r pl "vertical_branch ar r pl p"] by (simp add: vertical_branch_keeps)
  with Cons.IH [of ?q] show ?case by auto
qed

lemma x_velocity_collisions:
  "x_velocity (handle_collisions ar p pls) = x_velocity p \<or> x_velocity (handle_collisions ar p pls) = 0"
  using x_velocity_loop [of ar "player_rect p" _ pls "p\<lparr>is_grounded := False\<rparr>"]
  by (simp add: handle_collisions_def Let_def player_rect_def)

lemma x_velocity_constrain:
  "x_velocity (constrain_player_to_world p) = x_velocity p \<or>
   x_velocity (constrain_player_to_world p) = 0"
  by (simp add: constrain_player_to_world_def Let_def)

lemma reachable_player_velocity:
  "reachable_player ar p \<Longrightarrow>
   dash_speed p = 9 \<and> (x_velocity p = 9 \<or> x_velocity p = - 9 \<or> x_velocity p = 0)"
proof (induction rule: reachable_player.induct)
  case initial
  show ?case by (simp add: initial_player_def DASH_SPEED_def)
next
  case (move p ks t_check t_stamp)
  then show ?case using x_velocity_move [of ar p ks t_check t_stamp]
    by (auto simp add: move_player_keeps)
next
  case (physics p)
  then show ?case using x_velocity_physics [of ar p] by (auto simp add: apply_physics_keeps)
next
  case (collisions p platforms)
  then show ?case using x_velocity_collisions [of ar p platforms]
    by (auto simp add: handle_collisions_keeps)
next
  case (constrain p)
  then show ?case using x_velocity_constrain [of p] by (auto simp add: constrain_keeps)
next
  case (bricks p damage_bricks ticks)
  then show ?case by (simp add: handle_damage_bricks_dash)
next
  case (invincibility p now)
  then show ?case by (simp add: reset_invincibility_dash)
qed

lemma apply_physics_dashing: "is_dashing p \<Longrightarrow> y_velocity (apply_physics ar p) = y_velocity p"
  by (simp add: apply_physics_def Let_def)

lemma reachable_player_motion:
  "reachable_player ar p \<Longrightarrow> reachable_player ar (motion ar pls inp p)"
  unfolding motion_def
  by (intro reachable_player.constrain reachable_player.collisions reachable_player.physics
      reachable_player.move)

lemma reachable_player_hazards:
  "reachable_player ar p \<Longrightarrow> reachable_player ar (hazards bs inp p)"
  unfolding hazards_def
  by (intro reachable_player.invincibility reachable_player.bricks)

lemma reachable_player_of_game: "reachable ar pls g \<Longrightarrow> reachable_player ar (player g)"
proof (induction rule: reachable.induct)
  case start
  show ?case by (simp add: initial_game_def reachable_player.initial)
next
  case (step g inp g')
  then show ?case
    using frame_player [OF step.hyps(3)]
    by (simp add: reachable_player_motion reachable_player_hazards)
qed

text \<open>
  C1, as the code has it. In every player state that the per-frame operations can reach,
  while \<open>is_dashing\<close> holds \<open>x_velocity\<close> is 9, -9 or 0, and \<open>apply_physics\<close> leaves
  \<open>y_velocity\<close> as it is (no gravity). The value 0 is what a side collision or the
  horizontal world bound leaves behind: both zero \<open>x_velocity\<close> and neither ends the dash.
\<close>

theorem dashing_velocity:
  assumes "reachable_player ar p" and "is_dashing p"
  shows "(x_velocity p = 9 \<or> x_velocity p = - 9 \<or> x_velocity p = 0) \<and>
         y_velocity (apply_physics ar p) = y_velocity p"
  using reachable_player_velocity [OF assms(1)] apply_physics_dashing [OF assms(2)] by simp

theorem dashing_velocity_witness:
  "reachable_player binary64 (move_player binary64 initial_player dash_right 500 500) \<and>
   is_dashing (move_player binary64 initial_player dash_right 500 500) \<and>
   x_velocity (move_player binary64 initial_player dash_right 500 500) = 9 \<and>
   y_velocity (apply_physics binary64 (move_player binary64 initial_player dash_right 500 500)) =
     y_velocity (move_player binary64 initial_player dash_right 500 500)"
proof -
  have r: "reachable_player binary64 (move_player binary64 initial_player dash_right 500 500)"
    by (rule reachable_player.move [OF reachable_player.initial])
  have d: "is_dashing (move_player binary64 initial_player dash_right 500 500)"
    by (simp add: eval_defs)
  have x: "x_velocity (move_player binary64 initial_player dash_right 500 500) = 9"
    by (simp add: eval_defs)
  show ?thesis using dashing_velocity [OF r d] r d x by simp
qed

text \<open>
  C1 as stated fails in the first iteration of a session whose level has a platform at
  (210, 190, 50, 50): with the dash key and the right key held at 500 ms the dash starts,
  the side collision with the platform zeroes \<open>x_velocity\<close>, and the iteration ends with
  \<open>is_dashing\<close> true and \<open>x_velocity = 0\<close>.
\<close>

theorem dashing_velocity_counterexample:
  "frame binary64 wall_level main_damage_bricks (at_ticks dash_right 500) initial_game =
     Inr (initial_game\<lparr>player := motion binary64 wall_level (at_ticks dash_right 500) initial_player\<rparr>) \<and>
   reachable_player binary64 (motion binary64 wall_level (at_ticks dash_right 500) initial_player) \<and>
   is_dashing (motion binary64 wall_level (at_ticks dash_right 500) initial_player) \<and>
   x_velocity (motion binary64 wall_level (at_ticks dash_right 500) initial_player) = 0 \<and>
   \<bar>x_velocity (motion binary64 wall_level (at_ticks dash_right 500) initial_player)\<bar> \<noteq> 9"
  using reachable_player_motion [OF reachable_player.initial, of binary64 wall_level
      "at_ticks dash_right 500"]
    wall_frame
  by (simp add: wall_motion)

subsection \<open>Dash trigger\<close>










subsection \<open>Coins and score\<close>

lemma coin_loop_eq:
  "coin_loop r cs sc =
     (map (\<lambda>c. if picked_up r c then c\<lparr>collected := True\<rparr> else c) cs,
      sc + int (length (filter (picked_up r) cs)))"
  by (induction cs arbitrary: sc) (simp_all add: picked_up_def)

lemma collected_count_after:
  "collected_count (map (\<lambda>c. if picked_up r c then c\<lparr>collected := True\<rparr> else c) cs) =
   collected_count cs + int (length (filter (picked_up r) cs))"
  by (induction cs) (auto simp add: collected_count_def picked_up_def)

lemma coin_loop_score:
  "snd (coin_loop r cs sc) = sc + (collected_count (fst (coin_loop r cs sc)) - collected_count cs)"
  by (simp add: coin_loop_eq collected_count_after)

lemma coin_loop_length: "length (fst (coin_loop r cs sc)) = length cs"
  by (simp add: coin_loop_eq)

lemma coin_loop_keeps:
  "i < length cs \<Longrightarrow> collected (cs ! i) \<Longrightarrow> collected (fst (coin_loop r cs sc) ! i)"
  by (simp add: coin_loop_eq)

lemma coin_loop_rect:
  "i < length cs \<Longrightarrow> coin_rect (fst (coin_loop r cs sc) ! i) = coin_rect (cs ! i)"
  by (simp add: coin_loop_eq)

lemma simulate_coins:
  "(coins (simulate ar pls bricks inp g) = coins g \<and> score (simulate ar pls bricks inp g) = score g) \<or>
   coins (simulate ar pls bricks inp g) =
     fst (coin_loop (player_rect (hazards bricks inp (motion ar pls inp (player g)))) (coins g) (score g)) \<and>
   score (simulate ar pls bricks inp g) =
     snd (coin_loop (player_rect (hazards bricks inp (motion ar pls inp (player g)))) (coins g) (score g))"
  by (simp add: simulate_alt)

lemma simulate_coin_step:
  "length (coins (simulate ar pls bricks inp g)) = length (coins g) \<and>
   (\<forall>i < length (coins g). collected (coins g ! i) \<longrightarrow> collected (coins (simulate ar pls bricks inp g) ! i)) \<and>
   score (simulate ar pls bricks inp g) =
     score g + (collected_count (coins (simulate ar pls bricks inp g)) - collected_count (coins g))"
  using simulate_coins [of ar pls bricks inp g]
  by (auto simp add: coin_loop_length coin_loop_keeps coin_loop_score)

lemma frame_coin_step:
  assumes "frame ar pls bricks inp g = Inr g'"
  shows "length (coins g') = length (coins g) \<and>
         (\<forall>i < length (coins g). collected (coins g ! i) \<longrightarrow> collected (coins g' ! i)) \<and>
         score g' = score g + (collected_count (coins g') - collected_count (coins g))"
proof -
  from assms obtain g0 where g0: "coins g0 = coins g" "score g0 = score g"
    "(game_over g \<and> g' = g0) \<or> g' = simulate ar pls bricks inp g0"
    by (rule frame_cases)
  from g0(3) show ?thesis
  proof
    assume "game_over g \<and> g' = g0"
    then show ?thesis using g0 by simp
  next
    assume "g' = simulate ar pls bricks inp g0"
    then show ?thesis using simulate_coin_step [of ar pls bricks inp g0] g0 by simp
  qed
qed

lemma main_loop_coin_step:
  "main_loop ar pls bricks inps g = Inr g' \<Longrightarrow>
   length (coins g') = length (coins g) \<and>
   (\<forall>i < length (coins g). collected (coins g ! i) \<longrightarrow> collected (coins g' ! i)) \<and>
   score g' = score g + (collected_count (coins g') - collected_count (coins g))"
proof (induction inps arbitrary: g)
  case Nil
  then show ?case by simp
next
  case (Cons inp inps)
  show ?case
  proof (cases "running g")
    case False
    with Cons.prems show ?thesis by simp
  next
    case True
    with Cons.prems obtain g1 where f: "frame ar pls bricks inp g = Inr g1"
      and r: "main_loop ar pls bricks inps g1 = Inr g'"
      by (auto split: sum.splits)
    from frame_coin_step [OF f] Cons.IH [OF r] show ?thesis by auto
  qed
qed

lemma reachable_score:
  "reachable ar pls g \<Longrightarrow> score g = collected_count (coins g)"
proof (induction rule: reachable.induct)
  case start
  show ?case
    by (simp add: initial_game_def main_coins_def new_Coin_def collected_count_def)
next
  case (step g inp g')
  then show ?case using frame_coin_step [of ar pls main_damage_bricks inp g g'] by simp
qed

text \<open>
  C9. In every reachable game state the score is the number of collected coins. Over any
  run of iterations, from any state and with any bricks and platforms, the coin list keeps
  its length, a coin that is collected stays collected (so its flag changes at most once,
  from false to true), and the score grows by exactly the number of coins collected in
  the run. \<open>handle_coin_collection\<close> itself adds to the score the number of coins it
  marks.
\<close>

theorem score_counts_collected:
  "(reachable ar platforms g \<longrightarrow> score g = collected_count (coins g)) \<and>
   (main_loop ar platforms damage_bricks inps g = Inr g' \<longrightarrow>
      length (coins g') = length (coins g) \<and>
      (\<forall>i < length (coins g). collected (coins g ! i) \<longrightarrow> collected (coins g' ! i)) \<and>
      score g' = score g + (collected_count (coins g') - collected_count (coins g))) \<and>
   snd (handle_coin_collection p cs sc) =
     sc + (collected_count (fst (handle_coin_collection p cs sc)) - collected_count cs)"
  using reachable_score [of ar platforms g]
    main_loop_coin_step [of ar platforms damage_bricks inps g g']
  by (simp add: handle_coin_collection_def coin_loop_score)

theorem score_counts_collected_witness:
  "reachable binary64 [] initial_game \<and> score initial_game = collected_count (coins initial_game) \<and>
   main_loop binary64 [] main_damage_bricks [at_ticks no_keys 16] near_coin = Inr coin_taken \<and>
   score near_coin = 0 \<and> score coin_taken = 1 \<and>
   main_loop binary64 [] main_damage_bricks [at_ticks no_keys 33] coin_taken = Inr coin_kept \<and>
   0 < length (coins coin_taken) \<and> collected (coins coin_taken ! 0) \<and>
   collected (coins coin_kept ! 0) \<and> score coin_kept = 1"
proof -
  have r: "reachable binary64 [] initial_game" by (rule reachable.start)
  have a: "score initial_game = collected_count (coins initial_game)"
    using conjunct1 [OF score_counts_collected [where ar = binary64 and platforms = "[]" and g = initial_game
        and damage_bricks = main_damage_bricks and inps = "[]" and g' = initial_game
        and p = initial_player and cs = "[]" and sc = 0]] r
    by (rule mp)
  have c: "0 < length (coins coin_taken)" "collected (coins coin_taken ! 0)"
    "score near_coin = 0" "score coin_taken = 1"
    by (simp_all add: coin_taken_def near_coin_def initial_game_def)
  from conjunct1 [OF conjunct2 [OF score_counts_collected [where ar = binary64 and platforms = "[]"
      and g = coin_taken and damage_bricks = main_damage_bricks
      and inps = "[at_ticks no_keys 33]" and g' = coin_kept
      and p = initial_player and cs = "[]" and sc = 0]]] coin_taken_frame
  have k: "\<forall>i < length (coins coin_taken).
             collected (coins coin_taken ! i) \<longrightarrow> collected (coins coin_kept ! i)"
    and sc: "score coin_kept =
             score coin_taken + (collected_count (coins coin_kept) - collected_count (coins coin_taken))"
    by blast+
  have "collected (coins coin_kept ! 0)" using k c by blast
  moreover have "score coin_kept = 1"
    using sc by (simp add: coin_kept_def coin_taken_def collected_count_def)
  ultimately show ?thesis using r a c near_coin_frame coin_taken_frame by blast
qed

subsection \<open>Hit points\<close>

lemma damage_loop_hp:
  "\<forall>b \<in> set bricks. 0 \<le> damage b \<Longrightarrow> 0 \<le> hp p \<Longrightarrow>
   0 \<le> hp (damage_loop r ticks k bricks p) \<and> hp (damage_loop r ticks k bricks p) \<le> hp p"
proof (induction bricks arbitrary: k p)
  case Nil
  then show ?case by simp
next
  case (Cons b bs)
  let ?q = "if colliderect r (brick_rect b) then handle_damage p (damage b) (ticks k) else p"
  have q: "0 \<le> hp ?q" "hp ?q \<le> hp p"
    using Cons.prems by (simp_all add: handle_damage_def Let_def)
  from Cons.IH [of ?q "Suc k"] Cons.prems(1) q(1)
  have "0 \<le> hp (damage_loop r ticks (Suc k) bs ?q) \<and> hp (damage_loop r ticks (Suc k) bs ?q) \<le> hp ?q"
    by simp
  with q show ?case by simp
qed

lemma main_bricks_damage: "\<forall>b \<in> set main_damage_bricks. 0 \<le> damage b"
  by (simp add: main_damage_bricks_def new_DamageBrick_def)

lemma hazards_hp:
  "\<forall>b \<in> set bricks. 0 \<le> damage b \<Longrightarrow> 0 \<le> hp p \<Longrightarrow>
   0 \<le> hp (hazards bricks inp p) \<and> hp (hazards bricks inp p) \<le> hp p"
  by (simp add: hazards_def reset_invincibility_hp handle_damage_bricks_def damage_loop_hp)

lemma simulate_hp:
  assumes "\<forall>b \<in> set bricks. 0 \<le> damage b"
  shows "hp (player (simulate ar pls bricks inp g)) \<le> hp (player g) \<and>
         (0 \<le> hp (player g) \<longrightarrow> 0 \<le> hp (player (simulate ar pls bricks inp g)))"
proof (cases "hp (motion ar pls inp (player g)) \<le> 0")
  case True
  then show ?thesis by (simp add: simulate_alt motion_keeps)
next
  case False
  then have "0 \<le> hp (motion ar pls inp (player g))" by simp
  from hazards_hp [OF assms this, of inp] False show ?thesis
    by (simp add: simulate_alt motion_keeps)
qed

lemma frame_hp:
  assumes "\<forall>b \<in> set bricks. 0 \<le> damage b" and "frame ar pls bricks inp g = Inr g'"
  shows "hp (player g') \<le> hp (player g) \<and> (0 \<le> hp (player g) \<longrightarrow> 0 \<le> hp (player g'))"
proof -
  from assms(2) obtain g0 where g0: "player g0 = player g"
    "(game_over g \<and> g' = g0) \<or> g' = simulate ar pls bricks inp g0"
    by (rule frame_cases)
  from g0(2) show ?thesis
  proof
    assume "game_over g \<and> g' = g0"
    then show ?thesis using g0 by simp
  next
    assume "g' = simulate ar pls bricks inp g0"
    then show ?thesis using simulate_hp [OF assms(1), of ar pls inp g0] g0 by simp
  qed
qed

lemma main_loop_hp:
  assumes "\<forall>b \<in> set bricks. 0 \<le> damage b"
  shows "main_loop ar pls bricks inps g = Inr g' \<Longrightarrow>
         hp (player g') \<le> hp (player g) \<and> (0 \<le> hp (player g) \<longrightarrow> 0 \<le> hp (player g'))"
proof (induction inps arbitrary: g)
  case Nil
  then show ?case by simp
next
  case (Cons inp inps)
  show ?case
  proof (cases "running g")
    case False
    with Cons.prems show ?thesis by simp
  next
    case True
    with Cons.prems obtain g1 where f: "frame ar pls bricks inp g = Inr g1"
      and r: "main_loop ar pls bricks inps g1 = Inr g'"
      by (auto split: sum.splits)
    from frame_hp [OF assms f] Cons.IH [OF r] show ?thesis by auto
  qed
qed

lemma reachable_hp: "reachable ar pls g \<Longrightarrow> 0 \<le> hp (player g) \<and> hp (player g) \<le> 100"
proof (induction rule: reachable.induct)
  case start
  show ?case by (simp add: initial_game_def initial_player_def)
next
  case (step g inp g')
  then show ?case using frame_hp [OF main_bricks_damage step.hyps(3)] by simp
qed

text \<open>
  C10. In every reachable game state \<open>0 \<le> hp \<le> 100\<close>. Over any run of iterations with
  the bricks of \<open>main\<close>, from any state, \<open>hp\<close> does not grow. The operations before the
  hazard step (\<open>motion\<close>) and the invincibility timeout leave \<open>hp\<close> alone, and
  \<open>handle_damage\<close> with a non-negative amount takes a non-negative \<open>hp\<close> to a value
  between 0 and itself.
\<close>

theorem hp_never_increases:
  "(reachable ar platforms g \<longrightarrow> 0 \<le> hp (player g) \<and> hp (player g) \<le> 100) \<and>
   (main_loop ar platforms main_damage_bricks inps g = Inr g' \<longrightarrow> hp (player g') \<le> hp (player g)) \<and>
   hp (motion ar platforms inp p) = hp p \<and>
   hp (reset_invincibility now p) = hp p \<and>
   (0 \<le> amount \<and> 0 \<le> hp p \<longrightarrow>
      0 \<le> hp (handle_damage p amount t) \<and> hp (handle_damage p amount t) \<le> hp p)"
  using reachable_hp [of ar platforms g]
    main_loop_hp [OF main_bricks_damage, of ar platforms inps g g']
  by (simp add: motion_keeps reset_invincibility_hp handle_damage_def Let_def)

theorem hp_never_increases_witness:
  "reachable binary64 contact_level initial_game \<and>
   0 \<le> hp (player initial_game) \<and> hp (player initial_game) \<le> 100 \<and>
   main_loop binary64 contact_level main_damage_bricks [at_ticks no_keys 16] contact_start = Inr contact_hit \<and>
   hp (player contact_start) = 100 \<and> hp (player contact_hit) = 75 \<and>
   (0::int) \<le> 25 \<and> 0 \<le> hp initial_player \<and>
   hp (handle_damage initial_player 25 16) \<le> hp initial_player"
proof -
  have r: "reachable binary64 contact_level initial_game" by (rule reachable.start)
  have h: "hp (player contact_start) = 100" "hp (player contact_hit) = 75"
    "(0::int) \<le> 25 \<and> 0 \<le> hp initial_player"
    by (simp_all add: contact_start_def contact_hit_def initial_player_def)
  note t1 = hp_never_increases [where ar = binary64 and platforms = contact_level and g = initial_game
      and inps = "[]" and g' = initial_game and inp = "at_ticks no_keys 16"
      and p = initial_player and now = 16 and amount = 25 and t = 16]
  note t2 = hp_never_increases [where ar = binary64 and platforms = contact_level and g = contact_start
      and inps = "[at_ticks no_keys 16]" and g' = contact_hit and inp = "at_ticks no_keys 16"
      and p = initial_player and now = 16 and amount = 25 and t = 16]
  have a: "0 \<le> hp (player initial_game) \<and> hp (player initial_game) \<le> 100"
    using conjunct1 [OF t1] r by (rule mp)
  have b: "hp (handle_damage initial_player 25 16) \<le> hp initial_player"
    using conjunct2 [OF conjunct2 [OF conjunct2 [OF conjunct2 [OF t1]]]] h(3) by blast
  have c: "hp (player contact_hit) \<le> hp (player contact_start)"
    using conjunct1 [OF conjunct2 [OF t2]] contact_frame by (rule mp)
  from r a b c h contact_frame show ?thesis by blast
qed

subsection \<open>The invincibility window\<close>

lemma hazards_invincible:
  assumes "is_invincible p" and "ticks_invincible inp - last_damage_time p \<le> 1000"
  shows "hazards bricks inp p = p"
  using assms
  by (simp add: hazards_def handle_damage_bricks_def damage_loop_invincible
      reset_invincibility_def)

lemma frame_not_over:
  "\<not> game_over g \<Longrightarrow>
   frame ar pls bricks inp g =
     Inr (simulate ar pls bricks inp (if quit inp then g\<lparr>running := False\<rparr> else g))"
  by (simp add: frame_def Let_def)

lemma frame_within_window:
  assumes "0 < hp (player g)" "is_invincible (player g)" "\<not> game_over g"
    and "ticks_invincible inp - last_damage_time (player g) \<le> 1000"
  shows "\<exists>g'. frame ar pls bricks inp g = Inr g' \<and> hp (player g') = hp (player g) \<and>
           is_invincible (player g') \<and> last_damage_time (player g') = last_damage_time (player g) \<and>
           \<not> game_over g'"
proof -
  let ?g0 = "if quit inp then g\<lparr>running := False\<rparr> else g"
  let ?m = "motion ar pls inp (player g)"
  have m: "hp ?m = hp (player g)" "is_invincible ?m" "last_damage_time ?m = last_damage_time (player g)"
    using assms by (simp_all add: motion_keeps)
  have h: "hazards bricks inp ?m = ?m"
    using hazards_invincible [of ?m inp bricks] m assms(4) by simp
  have p0: "player ?g0 = player g" "game_over ?g0 = game_over g" by simp_all
  have "frame ar pls bricks inp g = Inr (simulate ar pls bricks inp ?g0)"
    using assms(3) by (rule frame_not_over)
  moreover have "player (simulate ar pls bricks inp ?g0) = ?m"
    using assms(1) m h by (simp add: simulate_player p0)
  moreover have "\<not> game_over (simulate ar pls bricks inp ?g0)"
    using assms(1,3) m by (simp add: simulate_alt p0)
  ultimately show ?thesis using m by simp
qed

lemma main_loop_within_window:
  assumes "0 < hp (player g)" "is_invincible (player g)" "\<not> game_over g"
    and "\<forall>inp \<in> set inps. ticks_invincible inp - last_damage_time (player g) \<le> 1000"
  shows "\<exists>g'. main_loop ar pls bricks inps g = Inr g' \<and> hp (player g') = hp (player g)"
  using assms
proof (induction inps arbitrary: g)
  case Nil
  then show ?case by simp
next
  case (Cons inp inps)
  show ?case
  proof (cases "running g")
    case False
    then show ?thesis by simp
  next
    case True
    from Cons.prems have w: "ticks_invincible inp - last_damage_time (player g) \<le> 1000" by simp
    from frame_within_window [OF Cons.prems(1-3) w, of ar pls bricks]
    obtain g1 where f: "frame ar pls bricks inp g = Inr g1" and k: "hp (player g1) = hp (player g)"
      "is_invincible (player g1)" "last_damage_time (player g1) = last_damage_time (player g)"
      "\<not> game_over g1"
      by blast
    have "\<exists>g'. main_loop ar pls bricks inps g1 = Inr g' \<and> hp (player g') = hp (player g1)"
      using Cons.IH [of g1] Cons.prems k by simp
    then show ?thesis using True f k by simp
  qed
qed

lemma first_contact:
  assumes "0 < hp (player g)" "\<not> is_invincible (player g)" "\<not> game_over g"
    and "colliderect (player_rect (motion ar pls inp (player g))) (brick_rect brick)"
    and "ticks_invincible inp - ticks_damage inp 0 \<le> 1000"
  shows "\<exists>g'. frame ar pls [brick] inp g = Inr g' \<and>
           hp (player g') = max 0 (hp (player g) - damage brick) \<and>
           is_invincible (player g') \<and> last_damage_time (player g') = ticks_damage inp 0 \<and>
           \<not> game_over g'"
proof -
  let ?g0 = "if quit inp then g\<lparr>running := False\<rparr> else g"
  let ?m = "motion ar pls inp (player g)"
  let ?h = "handle_damage ?m (damage brick) (ticks_damage inp 0)"
  have m: "hp ?m = hp (player g)" "\<not> is_invincible ?m"
    using assms by (simp_all add: motion_keeps)
  have hz: "hazards [brick] inp ?m = ?h"
    using assms(4,5) m
    by (simp add: hazards_def handle_damage_bricks_def handle_damage_eq reset_invincibility_def)
  have p0: "player ?g0 = player g" "game_over ?g0 = game_over g" by simp_all
  have "frame ar pls [brick] inp g = Inr (simulate ar pls [brick] inp ?g0)"
    using assms(3) by (rule frame_not_over)
  moreover have "player (simulate ar pls [brick] inp ?g0) = ?h"
    using assms(1) m hz by (simp add: simulate_player p0)
  moreover have "\<not> game_over (simulate ar pls [brick] inp ?g0)"
    using assms(1,3) m by (simp add: simulate_alt p0)
  ultimately show ?thesis using m by (simp add: handle_damage_eq)
qed

text \<open>
  C5, as the code has it. From \<open>hp = 100\<close>, with one brick of damage 25 that overlaps the
  player in every iteration, a run of iterations ends with \<open>hp = 75\<close> provided every
  invincibility test of the run reads the clock at most 1000 ms after the hit of the
  first iteration: within the window the damage is applied exactly once.
\<close>

theorem invincibility_window:
  assumes "hp (player g) = 100" and "\<not> is_invincible (player g)" and "\<not> game_over g"
    and "running g" and "damage brick = 25"
    and "contact_throughout ar platforms brick (inp # inps) g"
    and "\<forall>i \<in> set (inp # inps). ticks_invincible i - ticks_damage inp 0 \<le> 1000"
  shows "case main_loop ar platforms [brick] (inp # inps) g of
           Inl e \<Rightarrow> False
         | Inr g' \<Rightarrow> hp (player g') = 75"
proof -
  have c: "colliderect (player_rect (motion ar platforms inp (player g))) (brick_rect brick)"
    using assms(4,6) by simp
  have w: "ticks_invincible inp - ticks_damage inp 0 \<le> 1000" using assms(7) by simp
  have pos: "0 < hp (player g)" using assms(1) by simp
  from first_contact [OF pos assms(2,3) c w]
  obtain g1 where f: "frame ar platforms [brick] inp g = Inr g1" and k: "hp (player g1) = 75"
    "is_invincible (player g1)" "last_damage_time (player g1) = ticks_damage inp 0"
    "\<not> game_over g1"
    using assms(1,5) by auto
  have "\<exists>g'. main_loop ar platforms [brick] inps g1 = Inr g' \<and> hp (player g') = hp (player g1)"
    using main_loop_within_window [of g1 inps ar platforms "[brick]"] k assms(7) by simp
  then show ?thesis using f k assms(4) by auto
qed

text \<open>
  Evaluation of the contact scenario. One iteration without keys takes a standing state
  to a standing state: the player alternates between falling 0.2 onto the platform and
  resting on it, and the hazard step acts on \<open>hp\<close>, \<open>is_invincible\<close> and
  \<open>last_damage_time\<close>.
\<close>

lemma standing_motion:
  "motion binary64 contact_level (at_ticks no_keys t) (player (standing gr h iv ldt)) =
     player (standing (\<not> gr) h iv ldt)"
  by (cases gr) (simp_all add: standing_def contact_level_def contact_start_def eval_defs)

lemma standing_rect:
  "player_rect (player (standing gr h iv ldt)) =
     \<lparr>rect_x = 200, rect_y = 175, rect_w = 15, rect_h = 15\<rparr>"
  by (simp add: standing_def contact_start_def initial_player_def player_rect_def Rect_def
      py_int_def PLAYER_SIZE_def)

lemma standing_contact:
  "colliderect (player_rect (player (standing gr h iv ldt))) (brick_rect (new_DamageBrick 200 150))"
  by (simp add: standing_rect colliderect_def new_DamageBrick_def Rect_def py_int_def
      rect_left_def rect_right_def rect_top_def rect_bottom_def)

lemma standing_coins:
  "coin_loop (player_rect (player (standing gr h iv ldt))) main_coins 0 = (main_coins, 0)"
  by (simp add: standing_rect colliderect_def main_coins_def new_Coin_def Rect_def py_int_def
      rect_left_def rect_right_def rect_top_def rect_bottom_def)

lemma standing_fields:
  "running (standing gr h iv ldt)" "\<not> game_over (standing gr h iv ldt)"
  "coins (standing gr h iv ldt) = main_coins" "score (standing gr h iv ldt) = 0"
  "hp (player (standing gr h iv ldt)) = h"
  "is_invincible (player (standing gr h iv ldt)) = iv"
  "last_damage_time (player (standing gr h iv ldt)) = ldt"
  by (simp_all add: standing_def contact_start_def initial_game_def)

lemma standing_update:
  "(player (standing gr h iv ldt))\<lparr>hp := h', is_invincible := iv', last_damage_time := ldt'\<rparr> =
     player (standing gr h' iv' ldt')"
  "(player (standing gr h iv ldt))\<lparr>is_invincible := iv'\<rparr> = player (standing gr h iv' ldt)"
  "(standing gr h iv ldt)\<lparr>player := player (standing gr' h' iv' ldt'), coins := main_coins,
      score := 0\<rparr> = standing gr' h' iv' ldt'"
  by (simp_all add: standing_def contact_start_def initial_game_def)

lemma standing_hazards:
  "hazards [new_DamageBrick 200 150] (at_ticks no_keys t) (player (standing gr h iv ldt)) =
     player (standing gr (if iv then h else max 0 (h - 25))
               (if iv then \<not> t - ldt > 1000 else True) (if iv then ldt else t))"
proof (cases iv)
  case True
  let ?P = "player (standing gr h iv ldt)"
  have "is_invincible ?P" using True by (simp add: standing_fields)
  then have "handle_damage_bricks ?P [new_DamageBrick 200 150] (ticks_damage (at_ticks no_keys t)) = ?P"
    unfolding handle_damage_bricks_def by (rule damage_loop_invincible)
  then show ?thesis
    using True
    by (simp add: hazards_def standing_fields reset_invincibility_def standing_update at_ticks_def)
next
  case False
  have d: "damage (new_DamageBrick 200 150) = 25" by (simp add: new_DamageBrick_def)
  from False show ?thesis
    by (simp add: hazards_def handle_damage_bricks_def standing_contact handle_damage_eq d
        standing_fields reset_invincibility_def standing_update at_ticks_def)
qed

lemma standing_frame:
  assumes "0 < h"
  shows "frame binary64 contact_level [new_DamageBrick 200 150] (at_ticks no_keys t)
           (standing gr h iv ldt) =
         Inr (standing (\<not> gr) (if iv then h else max 0 (h - 25))
                (if iv then \<not> t - ldt > 1000 else True) (if iv then ldt else t))"
proof -
  have q: "\<not> quit (at_ticks no_keys t)" by (simp add: at_ticks_def)
  have "frame binary64 contact_level [new_DamageBrick 200 150] (at_ticks no_keys t)
          (standing gr h iv ldt) =
        Inr (simulate binary64 contact_level [new_DamageBrick 200 150] (at_ticks no_keys t)
          (standing gr h iv ldt))"
    using frame_not_over [of "standing gr h iv ldt"] q by (simp add: standing_fields)
  also have "simulate binary64 contact_level [new_DamageBrick 200 150] (at_ticks no_keys t)
          (standing gr h iv ldt) =
        standing (\<not> gr) (if iv then h else max 0 (h - 25))
          (if iv then \<not> t - ldt > 1000 else True) (if iv then ldt else t)"
    using assms
    by (simp add: simulate_alt standing_motion standing_fields standing_hazards standing_coins
        standing_update)
  finally show ?thesis .
qed


lemma main_loop_upt:
  "main_loop ar pls bs (map f [i..<j]) g =
     (if i < j then
        (if running g then
           (case frame ar pls bs (f i) g of
              Inl e \<Rightarrow> Inl e
            | Inr g' \<Rightarrow> main_loop ar pls bs (map f [Suc i..<j]) g')
         else Inr g)
      else Inr g)"
  by (simp add: upt_conv_Cons)

lemma contact_upt:
  "contact_throughout ar pls b (map f [i..<j]) g =
     (if i < j then
        (if running g then
           colliderect (player_rect (motion ar pls (f i) (player g))) (brick_rect b) \<and>
           (case frame ar pls [b] (f i) g of
              Inl e \<Rightarrow> False
            | Inr g' \<Rightarrow> contact_throughout ar pls b (map f [Suc i..<j]) g')
         else True)
      else True)"
  by (simp add: upt_conv_Cons)

lemma standing_start: "contact_start = standing False 100 False 0"
  by (simp add: standing_def contact_start_def initial_player_def)

lemma standing_one: "one_second_later = standing False 75 True 16"
  by (simp add: standing_def one_second_later_def contact_start_def initial_player_def)

lemma standing_three: "three_seconds_later = standing False 25 True 2083"
  by (simp add: standing_def three_seconds_later_def contact_start_def initial_player_def)

lemma run60:
  "main_loop binary64 contact_level [new_DamageBrick 200 150] (sixty_fps 60) contact_start =
     Inr one_second_later"
  by (simp add: sixty_fps_def standing_start standing_one main_loop_upt standing_frame
      standing_fields)

lemma contact60:
  "contact_throughout binary64 contact_level (new_DamageBrick 200 150) (sixty_fps 60) contact_start"
  by (simp add: sixty_fps_def standing_start contact_upt standing_frame standing_fields
      standing_motion standing_contact)

lemma run180:
  "main_loop binary64 contact_level [new_DamageBrick 200 150] (sixty_fps 180) contact_start =
     Inr three_seconds_later"
  by (simp add: sixty_fps_def standing_start standing_three main_loop_upt standing_frame
      standing_fields)

lemma contact180:
  "contact_throughout binary64 contact_level (new_DamageBrick 200 150) (sixty_fps 180) contact_start"
  by (simp add: sixty_fps_def standing_start contact_upt standing_frame standing_fields
      standing_motion standing_contact)

lemma window60:
  "\<forall>i \<in> set (sixty_fps 60). ticks_invincible i - ticks_damage (hd (sixty_fps 60)) 0 \<le> 1000"
  by code_simp

lemma sixty_fps_Cons:
  "sixty_fps 60 =
     at_ticks no_keys 16 # map (\<lambda>i. at_ticks no_keys ((50 * int i) div 3)) [2..<61]"
proof -
  have "[1..<Suc 60] = 1 # [2..<61]" by (simp add: upt_conv_Cons)
  then show ?thesis by (simp add: sixty_fps_def)
qed

theorem invincibility_window_witness:
  "hp (player contact_start) = 100 \<and> \<not> is_invincible (player contact_start) \<and>
   \<not> game_over contact_start \<and> running contact_start \<and>
   damage (new_DamageBrick 200 150) = 25 \<and>
   contact_throughout binary64 contact_level (new_DamageBrick 200 150) (sixty_fps 60) contact_start \<and>
   list_all (\<lambda>i. ticks_invincible i - ticks_damage (hd (sixty_fps 60)) 0 \<le> 1000)
     (sixty_fps 60) \<and>
   main_loop binary64 contact_level [new_DamageBrick 200 150] (sixty_fps 60) contact_start =
     Inr one_second_later \<and>
   hp (player one_second_later) = 75"
proof -
  let ?rest = "map (\<lambda>i. at_ticks no_keys ((50 * int i) div 3)) [2..<61]"
  have a: "hp (player contact_start) = 100" "\<not> is_invincible (player contact_start)"
    "\<not> game_over contact_start" "running contact_start" "damage (new_DamageBrick 200 150) = 25"
    by (simp_all add: contact_start_def initial_game_def initial_player_def new_DamageBrick_def)
  have c: "contact_throughout binary64 contact_level (new_DamageBrick 200 150)
             (at_ticks no_keys 16 # ?rest) contact_start"
    using contact60 by (simp only: sixty_fps_Cons)
  have w: "\<forall>i \<in> set (at_ticks no_keys 16 # ?rest).
             ticks_invincible i - ticks_damage (at_ticks no_keys 16) 0 \<le> 1000"
    using window60 by (simp only: sixty_fps_Cons list.sel)
  from invincibility_window [OF a c w] run60
  have "hp (player one_second_later) = 75" by (simp only: sixty_fps_Cons [symmetric] sum.case)
  moreover have "list_all (\<lambda>i. ticks_invincible i - ticks_damage (hd (sixty_fps 60)) 0 \<le> 1000)
      (sixty_fps 60)"
    using window60 by (simp only: list_all_iff)
  ultimately show ?thesis using a contact60 run60 by blast
qed

text \<open>
  C5 as stated fails. The player stands on a platform inside the brick of \<open>main\<close> for
  180 iterations at 60 per second, in contact in every one of them. The hit at 16 ms
  takes \<open>hp\<close> to 75; the test at 1033 ms clears \<open>is_invincible\<close>, the hit at 1050 ms
  takes \<open>hp\<close> to 50; the test at 2066 ms clears it again and the hit at 2083 ms takes
  \<open>hp\<close> to 25, which is the value after three seconds.
\<close>

theorem invincibility_window_counterexample:
  "hp (player contact_start) = 100 \<and>
   main_damage_bricks = [new_DamageBrick 200 150] \<and> damage (new_DamageBrick 200 150) = 25 \<and>
   contact_throughout binary64 contact_level (new_DamageBrick 200 150) (sixty_fps 180) contact_start \<and>
   main_loop binary64 contact_level main_damage_bricks (sixty_fps 180) contact_start =
     Inr three_seconds_later \<and>
   hp (player three_seconds_later) = 25"
proof -
  have "hp (player contact_start) = 100" "hp (player three_seconds_later) = 25"
    "damage (new_DamageBrick 200 150) = 25"
    by (simp_all add: contact_start_def three_seconds_later_def initial_player_def
        new_DamageBrick_def)
  then show ?thesis using contact180 run180 by (simp add: main_damage_bricks_def)
qed

end
